theory Spec2Isabelle
  imports Complex_Main "HOL-Library.Word" "HOL-Library.Multiset"
begin

chapter \<open>The incident console of gaipl-gpt-seek\<close>

text \<open>
  A shallow embedding of the TypeScript front end (the service wrapper
  \<open>lib/services/incidentService.ts\<close>, the dashboard components, the health, metrics and
  incident-details pages and the chat interface). The server behind the endpoints is
  not among the sources; where a property depends on it, it is modelled from the spec,
  and every such definition says so. The first part holds the definitions, one section
  per source file; the second part holds the theorems.
\<close>

section \<open>JavaScript strings\<close>

text \<open>
  A JavaScript string is a sequence of UTF-16 code units; \<open>length\<close>, \<open>startsWith\<close>,
  \<open>replace\<close>, \<open>trim\<close> and \<open>encodeURIComponent\<close> all work on code units. \<open>lit\<close> turns an
  ASCII literal of the source into its code units.
\<close>

type_synonym jsstring = "16 word list"

definition lit :: "string \<Rightarrow> jsstring" where
  "lit s = map (\<lambda>c. of_nat (of_char c)) s"

text \<open>\<open>s.startsWith(p)\<close>.\<close>

definition startsWith :: "jsstring \<Rightarrow> jsstring \<Rightarrow> bool" where
  "startsWith s p = (take (length p) s = p)"

text \<open>
  \<open>s.replace(pat, rep)\<close> with a string pattern: the first occurrence of \<open>pat\<close> is
  replaced, the rest is kept. (The replacement strings of the source hold no \<open>$\<close>.)
\<close>

fun replace_first :: "jsstring \<Rightarrow> jsstring \<Rightarrow> jsstring \<Rightarrow> jsstring" where
  "replace_first pat rep [] = (if pat = [] then rep else [])"
| "replace_first pat rep (c # cs) =
     (if startsWith (c # cs) pat then rep @ drop (length pat) (c # cs)
      else c # replace_first pat rep cs)"

text \<open>
  \<open>s.replace(/\n$/, '')\<close>: without the \<open>m\<close> flag \<open>$\<close> matches at the end of the input
  only, so one final line feed is removed.
\<close>

definition strip_final_newline :: "jsstring \<Rightarrow> jsstring" where
  "strip_final_newline s = (if s \<noteq> [] \<and> last s = 0xA then butlast s else s)"

text \<open>
  \<open>s.trim()\<close> removes the code units of WhiteSpace and LineTerminator (ECMA-262) from both
  ends: TAB, LF, VT, FF, CR, SP, NBSP, U+1680, U+2000 to U+200A, U+2028, U+2029, U+202F,
  U+205F, U+3000 and U+FEFF.
\<close>

definition isWhiteSpace :: "16 word \<Rightarrow> bool" where
  "isWhiteSpace c =
     (c \<in> set [0x9, 0xA, 0xB, 0xC, 0xD, 0x20, 0xA0, 0x1680, 0x2028, 0x2029, 0x202F, 0x205F,
                0x3000, 0xFEFF]
      \<or> (0x2000 \<le> c \<and> c \<le> 0x200A))"

definition trim :: "jsstring \<Rightarrow> jsstring" where
  "trim s = rev (dropWhile isWhiteSpace (rev (dropWhile isWhiteSpace s)))"

section \<open>Chat: the \<open>code\<close> renderer of \<open>markdownComponents\<close>\<close>

text \<open>
  \<open>components/Chat/ChatInterface.tsx\<close>, lines 68 to 113. \<open>children\<close> is the text of the
  code node (\<open>String(children)\<close>). The view keeps the text given to the highlighter and
  the Run button, which is rendered exactly when \<open>run_button\<close> is \<open>Some c\<close>, where \<open>c\<close>
  is the argument its click handler passes to \<open>handleExecuteCommand\<close>.
\<close>

record code_view =
  highlighted :: jsstring
  run_button :: "jsstring option"

definition code :: "jsstring \<Rightarrow> code_view" where
  "code children =
     (let codeContent = strip_final_newline children;
          isCommand = startsWith codeContent (lit ''command:'');
          commandContent =
            (if isCommand then trim (replace_first (lit ''command:'') [] codeContent)
             else codeContent)
      in \<lparr>highlighted = commandContent,
          run_button = (if isCommand then Some commandContent else None)\<rparr>)"

section \<open>The data model: \<open>lib/types/incident.ts\<close>\<close>

text \<open>
  A timestamp field (\<open>created_at\<close>, \<open>updated_at\<close>) holds an ISO-8601 string such as
  \<open>new Date().toISOString()\<close> produces. The code only ever reads such a field through
  \<open>new Date(s)\<close>, so the model keeps the number \<open>new Date(s).getTime()\<close> it denotes
  (milliseconds since the epoch) and takes the string to be a valid date.
\<close>

type_synonym timestamp = int

datatype severity = Low | Medium | High | Critical

datatype incident_status = Open | Analyzing | In_progress | Resolved

text \<open>
  \<open>Omit<Incident, 'id'>\<close> is the record \<open>incident_fields\<close>; \<open>Incident\<close> extends it with
  the field \<open>id\<close> (written \<open>id'\<close>, since \<open>id\<close> is the identity function of HOL).
\<close>

record incident_fields =
  title :: jsstring
  description :: jsstring
  component :: jsstring
  severity :: severity
  affected_service :: jsstring
  status :: incident_status
  created_at :: timestamp
  updated_at :: timestamp

record incident = incident_fields +
  id' :: jsstring

datatype json = JNull | JBool bool | JNum int | JStr jsstring | JArr "json list"
  | JObj "(jsstring \<times> json) list"

datatype action_type = Diagnostic | Remediation

record incident_action =
  action_id :: jsstring
  action_type :: action_type
  action_title :: jsstring
  action_description :: jsstring
  params :: "(jsstring \<times> json) list option"

datatype health = Healthy | Degraded | Unhealthy

text \<open>
  \<open>HealthCheckResult\<close>. Its \<open>metrics\<close> array is read nowhere in the front end and is left
  out of the record.
\<close>

record health_check_result =
  hc_status :: health
  hc_message :: jsstring

text \<open>The result types of \<open>analyzeIncident\<close> and \<open>executeAction\<close>.\<close>

record analysis_result =
  analysis :: jsstring
  recommended_actions :: "incident_action list"

record action_result =
  success :: bool
  message :: jsstring

section \<open>The service wrapper: \<open>lib/services/incidentService.ts\<close>\<close>

text \<open>
  \<open>fetch\<close> either rejects (the network failed) or resolves with a response: its status
  code and its body. The body is \<open>None\<close> when it is not JSON, so that \<open>response.json()\<close>
  rejects; otherwise it is the parsed value, which TypeScript takes to be of the declared
  result type without checking it.
\<close>

datatype 'a fetch_result = Rejected | Response nat "'a option"

text \<open>\<open>response.ok\<close>: the status is in the range 200 to 299.\<close>

definition ok :: "nat \<Rightarrow> bool" where
  "ok sc = (200 \<le> sc \<and> sc \<le> 299)"

datatype js_error = Error jsstring | TypeError | SyntaxError | URIError

text \<open>
  The six endpoints \<open>fetch\<close> is called on, each with the arguments the request carries and
  the type of the body it answers with. \<open>'w\<close> is the state of the world outside the
  browser (the server and its store): a call may change it.
\<close>

record 'w api =
  post_incidents :: "incident_fields \<Rightarrow> 'w \<Rightarrow> incident fetch_result \<times> 'w"
  get_incidents :: "'w \<Rightarrow> incident list fetch_result \<times> 'w"
  post_analyze :: "jsstring \<Rightarrow> 'w \<Rightarrow> analysis_result fetch_result \<times> 'w"
  post_execute_action ::
    "jsstring \<Rightarrow> jsstring \<Rightarrow> (jsstring \<times> json) list \<Rightarrow> 'w \<Rightarrow> action_result fetch_result \<times> 'w"
  post_health_check :: "jsstring \<Rightarrow> 'w \<Rightarrow> health_check_result fetch_result \<times> 'w"
  post_close :: "jsstring \<Rightarrow> 'w \<Rightarrow> incident fetch_result \<times> 'w"

text \<open>
  What every method does with its response:
  \<^verbatim>\<open>if (!response.ok) { throw new Error(msg); } return response.json();\<close>
\<close>

definition checked_json :: "jsstring \<Rightarrow> 'a fetch_result \<Rightarrow> js_error + 'a" where
  "checked_json msg response =
     (case response of
        Rejected \<Rightarrow> Inl TypeError
      | Response sc body \<Rightarrow>
          if \<not> ok sc then Inl (Error msg)
          else (case body of None \<Rightarrow> Inl SyntaxError | Some v \<Rightarrow> Inr v))"

definition createIncident ::
  "'w api \<Rightarrow> incident_fields \<Rightarrow> 'w \<Rightarrow> (js_error + incident) \<times> 'w" where
  "createIncident net incident w =
     (let (response, w') = post_incidents net incident w
      in (checked_json (lit ''Failed to create incident'') response, w'))"

definition getIncidents :: "'w api \<Rightarrow> 'w \<Rightarrow> (js_error + incident list) \<times> 'w" where
  "getIncidents net w =
     (let (response, w') = get_incidents net w
      in (checked_json (lit ''Failed to fetch incidents'') response, w'))"

definition analyzeIncident ::
  "'w api \<Rightarrow> jsstring \<Rightarrow> 'w \<Rightarrow> (js_error + analysis_result) \<times> 'w" where
  "analyzeIncident net incidentId w =
     (let (response, w') = post_analyze net incidentId w
      in (checked_json (lit ''Failed to analyze incident'') response, w'))"

definition executeAction ::
  "'w api \<Rightarrow> jsstring \<Rightarrow> jsstring \<Rightarrow> (jsstring \<times> json) list \<Rightarrow> 'w
   \<Rightarrow> (js_error + action_result) \<times> 'w" where
  "executeAction net incidentId actionId ps w =
     (let (response, w') = post_execute_action net incidentId actionId ps w
      in (checked_json (lit ''Failed to execute action'') response, w'))"

definition getHealthCheck ::
  "'w api \<Rightarrow> jsstring \<Rightarrow> 'w \<Rightarrow> (js_error + health_check_result) \<times> 'w" where
  "getHealthCheck net incidentId w =
     (let (response, w') = post_health_check net incidentId w
      in (checked_json (lit ''Failed to get health check'') response, w'))"

definition closeIncident ::
  "'w api \<Rightarrow> jsstring \<Rightarrow> 'w \<Rightarrow> (js_error + incident) \<times> 'w" where
  "closeIncident net incidentId w =
     (let (response, w') = post_close net incidentId w
      in (checked_json (lit ''Failed to close incident'') response, w'))"

text \<open>
  A network whose every endpoint gives a fixed answer and has no state: it says what a
  handler does with a given answer.
\<close>

record replies =
  create_reply :: "incident fetch_result"
  list_reply :: "incident list fetch_result"
  analyze_reply :: "analysis_result fetch_result"
  execute_reply :: "action_result fetch_result"
  health_reply :: "health_check_result fetch_result"
  close_reply :: "incident fetch_result"

definition answering :: "replies \<Rightarrow> unit api" where
  "answering rs =
     \<lparr>post_incidents = (\<lambda>incident w. (create_reply rs, w)),
      get_incidents = (\<lambda>w. (list_reply rs, w)),
      post_analyze = (\<lambda>incidentId w. (analyze_reply rs, w)),
      post_execute_action = (\<lambda>incidentId actionId ps w. (execute_reply rs, w)),
      post_health_check = (\<lambda>incidentId w. (health_reply rs, w)),
      post_close = (\<lambda>incidentId w. (close_reply rs, w))\<rparr>"

text \<open>
  The same network keeping a log of the requests made of it, in the order they were made:
  it says which requests a handler sends.
\<close>

datatype request =
  Post_incidents incident_fields
| Get_incidents
| Post_analyze jsstring
| Post_execute_action jsstring jsstring "(jsstring \<times> json) list"
| Post_health_check jsstring
| Post_close jsstring

definition recording :: "replies \<Rightarrow> request list api" where
  "recording rs =
     \<lparr>post_incidents = (\<lambda>incident sent. (create_reply rs, sent @ [Post_incidents incident])),
      get_incidents = (\<lambda>sent. (list_reply rs, sent @ [Get_incidents])),
      post_analyze = (\<lambda>incidentId sent. (analyze_reply rs, sent @ [Post_analyze incidentId])),
      post_execute_action =
        (\<lambda>incidentId actionId ps sent.
           (execute_reply rs, sent @ [Post_execute_action incidentId actionId ps])),
      post_health_check =
        (\<lambda>incidentId sent. (health_reply rs, sent @ [Post_health_check incidentId])),
      post_close = (\<lambda>incidentId sent. (close_reply rs, sent @ [Post_close incidentId]))\<rparr>"

text \<open>A log with no close request and no execute-action request for a given incident.\<close>

definition spares :: "jsstring \<Rightarrow> request list \<Rightarrow> bool" where
  "spares incidentId sent =
     (Post_close incidentId \<notin> set sent
      \<and> list_all (\<lambda>r. case r of
                          Post_execute_action i actionId ps \<Rightarrow> i \<noteq> incidentId
                        | _ \<Rightarrow> True) sent)"

section \<open>The System Health page: \<open>app/health/page.tsx\<close>\<close>

text \<open>
  An entry of \<open>componentHealth\<close>: \<open>status\<close>, \<open>incidents\<close> and \<open>lastIncident\<close> (fields
  \<open>ch_status\<close>, \<open>ch_incidents\<close>, \<open>lastIncident\<close>; the empty string is \<open>None\<close>). The object
  \<open>componentHealth\<close> starts as \<open>{}\<close>; the map holds its own properties, which are the rows
  of the Component Health table (\<open>Object.entries\<close>, line 124).
\<close>

record component_health =
  ch_status :: health
  ch_incidents :: nat
  lastIncident :: "timestamp option"

record health_metrics =
  componentHealth :: "jsstring \<rightharpoonup> component_health"
  totalIncidents :: nat
  activeIncidents :: nat
  criticalIncidents :: nat

text \<open>
  The names every object inherits from \<open>Object.prototype\<close>. For such a name,
  \<open>componentHealth[name]\<close> reads the inherited value, a function (for \<open>__proto__\<close> the
  prototype itself), which is truthy.
\<close>

definition inherited_property :: "jsstring \<Rightarrow> bool" where
  "inherited_property name =
     (name \<in> set (map lit
        [''constructor'', ''__defineGetter__'', ''__defineSetter__'', ''hasOwnProperty'',
         ''__lookupGetter__'', ''__lookupSetter__'', ''isPrototypeOf'',
         ''propertyIsEnumerable'', ''toString'', ''valueOf'', ''__proto__'',
         ''toLocaleString'']))"

text \<open>
  The body of \<open>incidents.forEach\<close> (lines 33 to 58), for one incident. When the component
  is the name of an inherited property, the test of line 34 finds the inherited value, no
  entry is made, and the writes of lines 42 to 57 land on that inherited value:
  \<open>componentHealth\<close> gets no property of its own and the table no row. For the component
  \<open>__proto__\<close> the inherited value is \<open>Object.prototype\<close>, and the writes give every object
  the properties \<open>incidents\<close>, \<open>lastIncident\<close> and \<open>status\<close>; what this does to later
  components of these three names is not followed here, and the statements on lists of
  incidents below exclude the component \<open>__proto__\<close>.
\<close>

definition componentHealth_step ::
  "incident \<Rightarrow> (jsstring \<rightharpoonup> component_health) \<Rightarrow> (jsstring \<rightharpoonup> component_health)" where
  "componentHealth_step incident m =
     (let c = component incident in
      if inherited_property c then m
      else
        let h0 = (case m c of
                    None \<Rightarrow> \<lparr>ch_status = Healthy, ch_incidents = 0, lastIncident = None\<rparr>
                  | Some h \<Rightarrow> h);
            h1 = h0\<lparr>ch_incidents := ch_incidents h0 + 1\<rparr>;
            h2 = (case lastIncident h1 of
                    None \<Rightarrow> h1\<lparr>lastIncident := Some (created_at incident)\<rparr>
                  | Some t \<Rightarrow>
                      if t < created_at incident
                      then h1\<lparr>lastIncident := Some (created_at incident)\<rparr> else h1);
            h3 = (if status incident \<noteq> Resolved
                  then (if severity incident = Critical then h2\<lparr>ch_status := Unhealthy\<rparr>
                        else if severity incident = High then h2\<lparr>ch_status := Degraded\<rparr>
                        else h2)
                  else h2)
        in m(c \<mapsto> h3))"

definition calculateComponentHealth :: "incident list \<Rightarrow> (jsstring \<rightharpoonup> component_health)" where
  "calculateComponentHealth incidents = fold componentHealth_step incidents Map.empty"

text \<open>
  \<open>fetchMetrics\<close> of \<open>SystemHealth\<close>: when \<open>getIncidents\<close> throws, the error is logged and
  the metrics stay as they were.
\<close>

definition SystemHealth_fetchMetrics ::
  "'w api \<Rightarrow> health_metrics \<Rightarrow> 'w \<Rightarrow> health_metrics \<times> 'w" where
  "SystemHealth_fetchMetrics net metrics w =
     (case getIncidents net w of
        (Inl e, w') \<Rightarrow> (metrics, w')
      | (Inr incidents, w') \<Rightarrow>
          (\<lparr>componentHealth = calculateComponentHealth incidents,
            totalIncidents = length incidents,
            activeIncidents = length (filter (\<lambda>i. status i \<noteq> Resolved) incidents),
            criticalIncidents =
              length (filter (\<lambda>i. severity i = Critical \<and> status i \<noteq> Resolved) incidents)\<rparr>,
           w'))"

text \<open>The status the Component Health table shows for a component, if it has a row.\<close>

definition shown_status :: "health_metrics \<Rightarrow> jsstring \<Rightarrow> health option" where
  "shown_status metrics c = map_option ch_status (componentHealth metrics c)"

text \<open>
  The incidents at which the loop writes the status of component \<open>c\<close>: those of \<open>c\<close>
  that are unresolved and critical or high.
\<close>

definition decisive :: "jsstring \<Rightarrow> incident \<Rightarrow> bool" where
  "decisive c i =
     (component i = c \<and> status i \<noteq> Resolved \<and> (severity i = Critical \<or> severity i = High))"

section \<open>Chat: \<open>handleSubmit\<close> of \<open>ChatInterface\<close>\<close>

text \<open>
  \<open>data.result\<close> and \<open>data.sources\<close> on the parsed body: reading a property of \<open>null\<close>
  throws a TypeError; an object gives the property or \<open>undefined\<close> (\<open>None\<close>; of a
  repeated key \<open>JSON.parse\<close> keeps the last); any other value has neither property.
\<close>

fun get_property :: "json \<Rightarrow> jsstring \<Rightarrow> js_error + json option" where
  "get_property JNull k = Inl TypeError"
| "get_property (JObj kvs) k = Inr (map_of (rev kvs) k)"
| "get_property v k = Inr None"

datatype sender = User | Assistant

text \<open>
  A \<open>Message\<close>. Its \<open>id\<close> is the decimal string of a clock reading; the model keeps the
  number. \<open>content\<close> and \<open>sources\<close> of an assistant message are whatever the body held.
\<close>

record chat_message =
  msg_id :: int
  msg_type :: sender
  content :: "json option"
  sources :: "json option"

record chat =
  messages :: "chat_message list"
  input :: jsstring
  isLoading :: bool

text \<open>
  Lines 249 to 291. \<open>now1\<close> and \<open>now2\<close> are the readings of \<open>Date.now()\<close> before and after
  the request; \<open>response\<close> is what \<open>fetch\<close> of \<open>POST /query\<close> gave. \<open>response.ok\<close> is not
  read.
\<close>

definition handleSubmit :: "int \<Rightarrow> int \<Rightarrow> json fetch_result \<Rightarrow> chat \<Rightarrow> chat" where
  "handleSubmit now1 now2 response st =
     (if trim (input st) = [] \<or> isLoading st then st
      else
        let newMessage =
              \<lparr>msg_id = now1, msg_type = User, content = Some (JStr (trim (input st))),
               sources = None\<rparr>;
            st1 = st\<lparr>messages := messages st @ [newMessage], input := [], isLoading := True\<rparr>;
            assistantMessage =
              (case response of
                 Rejected \<Rightarrow> Inl TypeError
               | Response sc body \<Rightarrow>
                   (case body of
                      None \<Rightarrow> Inl SyntaxError
                    | Some data \<Rightarrow>
                        (case get_property data (lit ''result'') of
                           Inl e \<Rightarrow> Inl e
                         | Inr res \<Rightarrow>
                             (case get_property data (lit ''sources'') of
                                Inl e \<Rightarrow> Inl e
                              | Inr srcs \<Rightarrow>
                                  Inr \<lparr>msg_id = now2 + 1, msg_type = Assistant, content = res,
                                       sources = srcs\<rparr>))));
            errorMessage =
              \<lparr>msg_id = now2 + 1, msg_type = Assistant,
               content =
                 Some (JStr (lit ''Sorry, there was an error processing your request.'')),
               sources = None\<rparr>;
            st2 = (case assistantMessage of
                     Inr m \<Rightarrow> st1\<lparr>messages := messages st1 @ [m]\<rparr>
                   | Inl e \<Rightarrow> st1\<lparr>messages := messages st1 @ [errorMessage]\<rparr>)
        in st2\<lparr>isLoading := False\<rparr>)"

section \<open>The incident details page: \<open>app/incidents/[id]/page.tsx\<close>\<close>

datatype toast_type = Success | Failure

record toast =
  toast_message :: jsstring
  toast_type :: toast_type

text \<open>
  The state of \<open>IncidentDetails\<close>: \<open>incident\<close>, \<open>analysis\<close>, \<open>actions\<close>, \<open>isLoading\<close>,
  \<open>healthStatus\<close> (the empty string is \<open>None\<close>) and \<open>toast\<close>, the fields prefixed with
  \<open>d_\<close>.
\<close>

record details =
  d_incident :: "incident option"
  d_analysis :: jsstring
  d_actions :: "incident_action list"
  d_isLoading :: bool
  d_healthStatus :: "health option"
  d_toast :: "toast option"

text \<open>
  \<open>fetchIncidentDetails\<close>, the effect that runs when the page is opened: it lists the
  incidents and, when the incident of the page is among them, asks for its analysis and
  its health check, whatever the incident's status. An error ends it where it was thrown.
\<close>

definition fetchIncidentDetails ::
  "'w api \<Rightarrow> jsstring \<Rightarrow> details \<Rightarrow> 'w \<Rightarrow> details \<times> 'w" where
  "fetchIncidentDetails net incidentId page w =
     (case getIncidents net w of
        (Inl e, w1) \<Rightarrow> (page, w1)
      | (Inr incidents, w1) \<Rightarrow>
          (case find (\<lambda>i. id' i = incidentId) incidents of
             None \<Rightarrow> (page, w1)
           | Some currentIncident \<Rightarrow>
               (let page1 = page\<lparr>d_incident := Some currentIncident\<rparr>
                in case analyzeIncident net incidentId w1 of
                     (Inl e, w2) \<Rightarrow> (page1, w2)
                   | (Inr analysisResult, w2) \<Rightarrow>
                       (let page2 = page1\<lparr>d_analysis := analysis analysisResult,
                                          d_actions := recommended_actions analysisResult\<rparr>
                        in case getHealthCheck net incidentId w2 of
                             (Inl e, w3) \<Rightarrow> (page2, w3)
                           | (Inr healthCheck, w3) \<Rightarrow>
                               (page2\<lparr>d_healthStatus := Some (hc_status healthCheck)\<rparr>,
                                w3)))))"

text \<open>
  \<open>executeAction\<close> of the page (lines 321 to 352). A result whose \<open>success\<close> is false sets
  no toast; an error thrown by any of the three calls sets the error toast.
\<close>

definition failed_toast :: toast where
  "failed_toast =
     \<lparr>toast_message = lit ''Failed to execute action. Please try again.'',
      toast_type = Failure\<rparr>"

definition IncidentDetails_executeAction ::
  "'w api \<Rightarrow> jsstring \<Rightarrow> jsstring \<Rightarrow> details \<Rightarrow> 'w \<Rightarrow> details \<times> 'w" where
  "IncidentDetails_executeAction net incidentId actionId page w =
     (let page0 = page\<lparr>d_isLoading := True\<rparr>;
          (page', w') =
            (case executeAction net incidentId actionId [] w of
               (Inl e, w1) \<Rightarrow> (page0\<lparr>d_toast := Some failed_toast\<rparr>, w1)
             | (Inr result, w1) \<Rightarrow>
                 if success result then
                   (case getIncidents net w1 of
                      (Inl e, w2) \<Rightarrow> (page0\<lparr>d_toast := Some failed_toast\<rparr>, w2)
                    | (Inr incidents, w2) \<Rightarrow>
                        (let page1 =
                               (case find (\<lambda>i. id' i = incidentId) incidents of
                                  Some updatedIncident \<Rightarrow>
                                    page0\<lparr>d_incident := Some updatedIncident\<rparr>
                                | None \<Rightarrow> page0)
                         in case getHealthCheck net incidentId w2 of
                              (Inl e, w3) \<Rightarrow> (page1\<lparr>d_toast := Some failed_toast\<rparr>, w3)
                            | (Inr healthCheck, w3) \<Rightarrow>
                                (page1\<lparr>d_healthStatus := Some (hc_status healthCheck),
                                       d_toast :=
                                         Some \<lparr>toast_message =
                                                 (if message result = []
                                                  then lit ''Action executed successfully''
                                                  else message result),
                                               toast_type = Success\<rparr>\<rparr>,
                                 w3)))
                 else (page0, w1))
      in (page'\<lparr>d_isLoading := False\<rparr>, w'))"

text \<open>
  The \<open>disabled\<close> attribute of the Execute button of every recommended action
  (line 477): \<open>isLoading || incident.status === 'resolved'\<close>.
\<close>

definition execute_disabled :: "bool \<Rightarrow> incident \<Rightarrow> bool" where
  "execute_disabled loading incident = (loading \<or> status incident = Resolved)"

section \<open>Recent Activity: \<open>components/Dashboard/RecentActivity.tsx\<close>\<close>

text \<open>
  \<open>Array.prototype.sort\<close> with a comparison function: the sort is stable, and \<open>a\<close> comes
  before \<open>b\<close> when \<open>compareFn(a, b)\<close> is negative. For a consistent comparison function
  the result is determined; it is computed here by insertion from the right.
\<close>

fun insert_sorted :: "('a \<Rightarrow> 'a \<Rightarrow> int) \<Rightarrow> 'a \<Rightarrow> 'a list \<Rightarrow> 'a list" where
  "insert_sorted compareFn x [] = [x]"
| "insert_sorted compareFn x (y # ys) =
     (if compareFn x y \<le> 0 then x # y # ys else y # insert_sorted compareFn x ys)"

definition Array_sort :: "('a \<Rightarrow> 'a \<Rightarrow> int) \<Rightarrow> 'a list \<Rightarrow> 'a list" where
  "Array_sort compareFn xs = foldr (insert_sorted compareFn) xs []"

text \<open>
  The comparison function of line 22:
  \<^verbatim>\<open>(a, b) => new Date(b.created_at).getTime() - new Date(a.created_at).getTime()\<close>
\<close>

definition newest_first :: "incident \<Rightarrow> incident \<Rightarrow> int" where
  "newest_first a b = created_at b - created_at a"

text \<open>
  The state of \<open>RecentActivity\<close>: \<open>incidents\<close> (field \<open>shown\<close>), \<open>isClosing\<close>, and the
  \<open>refreshKey\<close> of the incident context, which \<open>refreshIncidents\<close> increments.
\<close>

record recent_activity =
  shown :: "incident list"
  isClosing :: "jsstring \<rightharpoonup> bool"
  refreshKey :: nat

text \<open>\<open>fetchIncidents\<close> (lines 16 to 33): sort, then \<open>slice(0, 5)\<close>.\<close>

definition RecentActivity_fetchIncidents ::
  "'w api \<Rightarrow> recent_activity \<Rightarrow> 'w \<Rightarrow> recent_activity \<times> 'w" where
  "RecentActivity_fetchIncidents net st w =
     (case getIncidents net w of
        (Inl e, w') \<Rightarrow> (st, w')
      | (Inr data, w') \<Rightarrow> (st\<lparr>shown := take 5 (Array_sort newest_first data)\<rparr>, w'))"

text \<open>
  \<open>handleCloseIncident\<close> (lines 35 to 57). The second component of the result is the
  text of the alert, if one was raised.
\<close>

definition handleCloseIncident ::
  "'w api \<Rightarrow> jsstring \<Rightarrow> recent_activity \<Rightarrow> 'w \<Rightarrow> (recent_activity \<times> jsstring option) \<times> 'w" where
  "handleCloseIncident net incidentId st w =
     (let st1 = st\<lparr>isClosing := (isClosing st)(incidentId \<mapsto> True)\<rparr>
      in case closeIncident net incidentId w of
           (Inr closedIncident, w') \<Rightarrow>
             ((st1\<lparr>shown :=
                      map (\<lambda>incident. if id' incident = incidentId
                                       then incident\<lparr>status := Resolved\<rparr> else incident)
                        (shown st1),
                    refreshKey := refreshKey st1 + 1,
                    isClosing := (isClosing st1)(incidentId \<mapsto> False)\<rparr>,
               None),
              w')
         | (Inl e, w') \<Rightarrow>
             ((st1\<lparr>isClosing := (isClosing st1)(incidentId \<mapsto> False)\<rparr>,
               Some (lit ''Failed to close incident. Please try again.'')),
              w'))"

text \<open>
  What a row of the list offers (lines 87 to 132): the link to the incident's details
  page, always; the Close button, only when the incident is not resolved.
\<close>

definition row_link :: "incident \<Rightarrow> jsstring" where
  "row_link incident = lit ''/incidents/'' @ id' incident"

definition close_button_rendered :: "incident \<Rightarrow> bool" where
  "close_button_rendered incident = (status incident \<noteq> Resolved)"

section \<open>Quick Actions: \<open>components/Dashboard/QuickActions.tsx\<close>\<close>

datatype create_outcome = Reloaded | Alerted jsstring

text \<open>
  \<open>handleCreateIncident\<close> (lines 12 to 37); \<open>t1\<close> and \<open>t2\<close> are the two readings of the
  browser's clock, for \<open>created_at\<close> and \<open>updated_at\<close>. The flag \<open>isCreatingIncident\<close>, true
  while the handler runs, is left out.
\<close>

definition new_incident_fields :: "timestamp \<Rightarrow> timestamp \<Rightarrow> incident_fields" where
  "new_incident_fields t1 t2 =
     \<lparr>title = lit ''API Gateway High CPU Usage'',
      description =
        lit ''API Gateway is experiencing high CPU usage causing increased response times.'',
      component = lit ''api-gateway'',
      severity = High,
      affected_service = lit ''customer-portal'',
      status = Open,
      created_at = t1,
      updated_at = t2\<rparr>"

definition handleCreateIncident ::
  "'w api \<Rightarrow> timestamp \<Rightarrow> timestamp \<Rightarrow> 'w \<Rightarrow> create_outcome \<times> 'w" where
  "handleCreateIncident net t1 t2 w =
     (case createIncident net (new_incident_fields t1 t2) w of
        (Inl e, w1) \<Rightarrow> (Alerted (lit ''Failed to create incident. Please try again.''), w1)
      | (Inr incident, w1) \<Rightarrow>
          (case analyzeIncident net (id' incident) w1 of
             (Inl e, w2) \<Rightarrow>
               (Alerted (lit ''Failed to create incident. Please try again.''), w2)
           | (Inr analysisResult, w2) \<Rightarrow> (Reloaded, w2)))"

section \<open>Chat: \<open>ExecutionPopup\<close>\<close>

text \<open>
  \<open>encodeURIComponent\<close> (ECMA-262, Encode): a code unit of the unreserved set (letters,
  digits and \<^verbatim>\<open>- _ . ! ~ * ' ( )\<close>) is kept; any other code point is written as the
  percent-escaped octets of its UTF-8 encoding; a surrogate that is not half of a pair
  throws a URIError.
\<close>

definition uriUnreserved :: "16 word \<Rightarrow> bool" where
  "uriUnreserved c =
     ((0x41 \<le> c \<and> c \<le> 0x5A) \<or> (0x61 \<le> c \<and> c \<le> 0x7A) \<or> (0x30 \<le> c \<and> c \<le> 0x39)
      \<or> c \<in> set [0x2D, 0x5F, 0x2E, 0x21, 0x7E, 0x2A, 0x27, 0x28, 0x29])"

definition is_lead :: "16 word \<Rightarrow> bool" where
  "is_lead c = (0xD800 \<le> c \<and> c \<le> 0xDBFF)"

definition is_trail :: "16 word \<Rightarrow> bool" where
  "is_trail c = (0xDC00 \<le> c \<and> c \<le> 0xDFFF)"

definition surrogate_pair :: "16 word \<Rightarrow> 16 word \<Rightarrow> nat" where
  "surrogate_pair c d = (unat c - 0xD800) * 0x400 + (unat d - 0xDC00) + 0x10000"

definition utf8 :: "nat \<Rightarrow> nat list" where
  "utf8 cp =
     (if cp < 0x80 then [cp]
      else if cp < 0x800 then [0xC0 + cp div 64, 0x80 + cp mod 64]
      else if cp < 0x10000 then [0xE0 + cp div 4096, 0x80 + cp div 64 mod 64, 0x80 + cp mod 64]
      else [0xF0 + cp div 262144, 0x80 + cp div 4096 mod 64, 0x80 + cp div 64 mod 64,
            0x80 + cp mod 64])"

definition hex_digit :: "nat \<Rightarrow> 16 word" where
  "hex_digit n = (if n < 10 then of_nat (0x30 + n) else of_nat (0x41 + (n - 10)))"

definition escape :: "nat \<Rightarrow> jsstring" where
  "escape cp = concat (map (\<lambda>octet. [0x25, hex_digit (octet div 16), hex_digit (octet mod 16)])
                          (utf8 cp))"

fun encodeURIComponent :: "jsstring \<Rightarrow> js_error + jsstring" where
  "encodeURIComponent [] = Inr []"
| "encodeURIComponent (c # cs) =
     (if uriUnreserved c then
        (case encodeURIComponent cs of Inl e \<Rightarrow> Inl e | Inr r \<Rightarrow> Inr (c # r))
      else if is_trail c then Inl URIError
      else if is_lead c then
        (case cs of
           [] \<Rightarrow> Inl URIError
         | d # ds \<Rightarrow>
             if is_trail d then
               (case encodeURIComponent ds of
                  Inl e \<Rightarrow> Inl e
                | Inr r \<Rightarrow> Inr (escape (surrogate_pair c d) @ r))
             else Inl URIError)
      else (case encodeURIComponent cs of
              Inl e \<Rightarrow> Inl e
            | Inr r \<Rightarrow> Inr (escape (unat c) @ r)))"

text \<open>
  A string is well formed when every surrogate in it is half of a pair
  (\<open>String.prototype.isWellFormed\<close>).
\<close>

fun well_formed :: "jsstring \<Rightarrow> bool" where
  "well_formed [] = True"
| "well_formed [c] = (\<not> is_lead c \<and> \<not> is_trail c)"
| "well_formed (c # d # ds) =
     (if is_lead c then is_trail d \<and> well_formed ds
      else \<not> is_trail c \<and> well_formed (d # ds))"

text \<open>
  The state of the popup (lines 121 to 133): the prop \<open>command\<close> it was last rendered
  with (field \<open>p_command\<close>), \<open>status\<close> (field \<open>p_status\<close>), \<open>splunkLink\<close>, and the timeout
  set by the effect: \<open>timer\<close> is the number of milliseconds until it fires, \<open>None\<close> once
  it has fired or was cleared. Time is counted in milliseconds, and the callback runs
  when the delay has passed.
\<close>

datatype exec_status = Executing | Completed

record popup =
  p_command :: jsstring
  p_status :: exec_status
  splunkLink :: jsstring
  timer :: "nat option"

text \<open>Mounting: the initial state of the two \<open>useState\<close>, and the effect's first run.\<close>

definition ExecutionPopup_mount :: "jsstring \<Rightarrow> popup" where
  "ExecutionPopup_mount command =
     \<lparr>p_command = command, p_status = Executing, splunkLink = [], timer = Some 2000\<rparr>"

text \<open>
  Rendering the mounted popup with a prop \<open>command\<close>: \<open>status\<close> and \<open>splunkLink\<close> are
  state and persist. The effect has the dependencies \<open>[command]\<close>: when the command is
  another one, its cleanup clears the timeout and the effect sets a new one of 2000
  milliseconds; when the command is the same, nothing runs.
\<close>

definition ExecutionPopup_rerender :: "jsstring \<Rightarrow> popup \<Rightarrow> popup" where
  "ExecutionPopup_rerender command p =
     (if command = p_command p then p else p\<lparr>p_command := command, timer := Some 2000\<rparr>)"

text \<open>
  The callback of \<open>setTimeout\<close>: \<open>setStatus('completed')\<close>, then \<open>setSplunkLink\<close> of the
  template string for the command of the effect's run. When \<open>encodeURIComponent\<close> throws,
  the status is already set and the link is not; the error (the second component) is
  caught by nothing.
\<close>

definition timer_fired :: "popup \<Rightarrow> popup \<times> js_error option" where
  "timer_fired p =
     (let p1 = p\<lparr>p_status := Completed, timer := None\<rparr>
      in case encodeURIComponent (p_command p) of
           Inl e \<Rightarrow> (p1, Some e)
         | Inr q \<Rightarrow>
             (p1\<lparr>splunkLink :=
                    lit ''https://splunk.example.com/search?q=search%20command%3D'' @ q
                    @ lit ''&earliest=-1h&latest=now''\<rparr>,
              None))"

definition elapse :: "nat \<Rightarrow> popup \<Rightarrow> popup \<times> js_error option" where
  "elapse ms p =
     (case timer p of
        None \<Rightarrow> (p, None)
      | Some delay \<Rightarrow>
          if ms < delay then (p\<lparr>timer := Some (delay - ms)\<rparr>, None)
          else timer_fired p)"

text \<open>
  \<open>ChatInterface\<close> holds \<open>executionPopup\<close>, \<open>{show, command}\<close>, and renders the popup
  while \<open>show\<close> is true (lines 199 to 211 and 331 to 336): the state is the mounted popup,
  if there is one. The handler behind every Run button sets \<open>{show: true, command}\<close>:
  it mounts the popup, or renders the one that is open with the new command. \<open>onClose\<close>
  unmounts it; the cleanup clears the timeout and the popup's state is gone.
\<close>

definition handleExecuteCommand :: "jsstring \<Rightarrow> popup option \<Rightarrow> popup" where
  "handleExecuteCommand command executionPopup =
     (case executionPopup of
        None \<Rightarrow> ExecutionPopup_mount command
      | Some p \<Rightarrow> ExecutionPopup_rerender command p)"

definition onClose :: "popup option \<Rightarrow> popup option" where
  "onClose executionPopup = None"

text \<open>
  What the popup shows under the command (lines 156 to 187): the spinner with
  "Executing command...", or "Command executed successfully" with the link "View logs in
  Splunk" to \<open>splunkLink\<close>. There is no third branch.
\<close>

datatype popup_view = Spinner | Succeeded jsstring

definition ExecutionPopup_render :: "popup \<Rightarrow> popup_view" where
  "ExecutionPopup_render p =
     (case p_status p of Executing \<Rightarrow> Spinner | Completed \<Rightarrow> Succeeded (splunkLink p))"

section \<open>Resolution rates: \<open>app/metrics/page.tsx\<close> and \<open>IncidentOverview\<close>\<close>

text \<open>
  A JavaScript number that these computations can produce: NaN, infinity, or a finite
  double, kept as the real number it is. \<open>rnd\<close> is the rounding of a real result to a
  double; the theorems hold for every \<open>rnd\<close>. The operands of the division are lengths
  of arrays.
\<close>

datatype number = NaN | Infinity | Finite real

definition js_div :: "(real \<Rightarrow> real) \<Rightarrow> nat \<Rightarrow> nat \<Rightarrow> number" where
  "js_div rnd a b =
     (if b = 0 then (if a = 0 then NaN else Infinity) else Finite (rnd (real a / real b)))"

definition js_times :: "(real \<Rightarrow> real) \<Rightarrow> number \<Rightarrow> real \<Rightarrow> number" where
  "js_times rnd x k =
     (case x of NaN \<Rightarrow> NaN | Infinity \<Rightarrow> Infinity | Finite v \<Rightarrow> Finite (rnd (v * k)))"

text \<open>\<open>Math.round\<close>: the nearest integer, a tie going up.\<close>

definition Math_round :: "number \<Rightarrow> number" where
  "Math_round x =
     (case x of NaN \<Rightarrow> NaN | Infinity \<Rightarrow> Infinity | Finite v \<Rightarrow> Finite (of_int \<lfloor>v + 1 / 2\<rfloor>))"

text \<open>
  The Resolution Rate of the Summary Statistics (\<open>app/metrics/page.tsx\<close>, line 192):
  \<^verbatim>\<open>Math.round((incidents.filter(i => i.status === 'resolved').length / incidents.length) * 100)\<close>
\<close>

definition Metrics_resolutionRate :: "(real \<Rightarrow> real) \<Rightarrow> incident list \<Rightarrow> number" where
  "Metrics_resolutionRate rnd incidents =
     Math_round
       (js_times rnd
          (js_div rnd (length (filter (\<lambda>i. status i = Resolved) incidents)) (length incidents))
          100)"

text \<open>The \<open>resolutionRate\<close> of \<open>IncidentOverview\<close> (lines 24 to 30).\<close>

definition IncidentOverview_resolutionRate :: "(real \<Rightarrow> real) \<Rightarrow> incident list \<Rightarrow> number" where
  "IncidentOverview_resolutionRate rnd incidents =
     (let totalIncidents = length incidents;
          resolvedIncidents = length (filter (\<lambda>i. status i = Resolved) incidents)
      in if totalIncidents > 0
         then Math_round (js_times rnd (js_div rnd resolvedIncidents totalIncidents) 100)
         else Finite 100)"

section \<open>The server behind the endpoints\<close>

text \<open>
  Modelled from the spec: the Incident Workflow Controller with its Incident Store
  (sections 3, 4.1, 4.4 and 6). The server that answers the six endpoints is not among
  the sources; what follows is written from the spec's words alone. The store holds the
  incidents, a counter from which ids are generated, and the server's clock, whose
  reading is the spec's "now". Where section 4.1 has an operation set a status and
  section 3 makes resolving terminal, section 3 is followed: no operation changes the
  status of a resolved incident.
\<close>

record world =
  store :: "incident list"
  next_id :: nat
  clock :: timestamp

datatype api_error = ValidationError | NotFoundError | ExternalServiceError

text \<open>
  Modelled from the spec: the external collaborators of the controller (sections 4.2 to
  4.4), each a function of what it is given: the Analysis Service and the Health Check
  Service, which may fail, the Action Executor, which reports success or failure in its
  result, and the rendering of the id counter as an id.
\<close>

record services =
  analysis_service :: "incident \<Rightarrow> analysis_result option"
  health_check_service :: "incident \<Rightarrow> health_check_result option"
  action_executor :: "jsstring \<Rightarrow> jsstring \<Rightarrow> (jsstring \<times> json) list \<Rightarrow> action_result"
  mk_id :: "nat \<Rightarrow> jsstring"

text \<open>
  Modelled from the spec: replacing the incident of a given id in the store (the spec's
  "sets status", "updated_at=now").
\<close>

definition update_incident :: "jsstring \<Rightarrow> (incident \<Rightarrow> incident) \<Rightarrow> world \<Rightarrow> world" where
  "update_incident iid f w =
     w\<lparr>store := map (\<lambda>i. if id' i = iid then f i else i) (store w)\<rparr>"

text \<open>
  Modelled from the spec: \<open>create\<close> of section 4.1, "new Incident with generated id,
  status=open, created_at=updated_at=now". The request is a well-typed
  \<open>Omit<Incident, 'id'>\<close>, which has the required fields and an enumerated severity, so
  the ValidationError of 4.1 does not arise.
\<close>

definition store_create ::
  "services \<Rightarrow> incident_fields \<Rightarrow> world \<Rightarrow> (api_error + incident) \<times> world" where
  "store_create sv request w =
     (let incident =
            \<lparr>title = title request, description = description request,
             component = component request, severity = severity request,
             affected_service = affected_service request, status = Open,
             created_at = clock w, updated_at = clock w, id' = mk_id sv (next_id w)\<rparr>
      in (Inr incident, w\<lparr>store := store w @ [incident], next_id := next_id w + 1\<rparr>))"

text \<open>Modelled from the spec: \<open>list\<close> of section 4.1, "all incidents".\<close>

definition store_list :: "world \<Rightarrow> (api_error + incident list) \<times> world" where
  "store_list w = (Inr (store w), w)"

text \<open>
  Modelled from the spec: \<open>analyze\<close> of section 4.1, "fails with NotFoundError if id
  unknown; otherwise sets status to analyzing, invokes Analysis Service", with section 3,
  "resolving is terminal": a resolved incident is analysed and stays resolved. By
  section 7 a failure of the service leaves the status set.
\<close>

definition begin_analysis :: "incident \<Rightarrow> incident" where
  "begin_analysis i = (if status i = Resolved then i else i\<lparr>status := Analyzing\<rparr>)"

definition store_analyze ::
  "services \<Rightarrow> jsstring \<Rightarrow> world \<Rightarrow> (api_error + analysis_result) \<times> world" where
  "store_analyze sv iid w =
     (case find (\<lambda>i. id' i = iid) (store w) of
        None \<Rightarrow> (Inl NotFoundError, w)
      | Some incident \<Rightarrow>
          (let w1 = update_incident iid begin_analysis w
           in case analysis_service sv (begin_analysis incident) of
                None \<Rightarrow> (Inl ExternalServiceError, w1)
              | Some r \<Rightarrow> (Inr r, w1)))"

text \<open>
  Modelled from the spec: \<open>executeAction\<close> of section 4.1, "fails with NotFoundError if
  incident unknown; invokes Action Executor; on success sets status to in_progress,
  updated_at=now, returns {success, message}; on failure returns success=false with a
  diagnostic message (does not throw)". Section 3 defines no transition out of
  \<open>resolved\<close>, and the spec names no error for an action on a resolved incident: the
  action is then not run, and the call is answered as a failed action is, with
  \<open>success\<close> false and a message that says why.
\<close>

definition resolved_refusal :: action_result where
  "resolved_refusal = \<lparr>success = False, message = lit ''Incident is resolved''\<rparr>"

definition begin_progress :: "timestamp \<Rightarrow> incident \<Rightarrow> incident" where
  "begin_progress now i =
     (if status i = Resolved then i else i\<lparr>status := In_progress, updated_at := now\<rparr>)"

definition store_executeAction ::
  "services \<Rightarrow> jsstring \<Rightarrow> jsstring \<Rightarrow> (jsstring \<times> json) list \<Rightarrow> world
   \<Rightarrow> (api_error + action_result) \<times> world" where
  "store_executeAction sv iid actionId ps w =
     (case find (\<lambda>i. id' i = iid) (store w) of
        None \<Rightarrow> (Inl NotFoundError, w)
      | Some incident \<Rightarrow>
          if status incident = Resolved then (Inr resolved_refusal, w)
          else
            (let r = action_executor sv iid actionId ps
             in if success r
                then (Inr r, update_incident iid (begin_progress (clock w)) w)
                else (Inr r, w)))"

text \<open>
  Modelled from the spec: \<open>healthCheck\<close> of section 4.1, "fails with NotFoundError if
  unknown; invokes Health Check Service; read-only".
\<close>

definition store_healthCheck ::
  "services \<Rightarrow> jsstring \<Rightarrow> world \<Rightarrow> (api_error + health_check_result) \<times> world" where
  "store_healthCheck sv iid w =
     (case find (\<lambda>i. id' i = iid) (store w) of
        None \<Rightarrow> (Inl NotFoundError, w)
      | Some incident \<Rightarrow>
          (case health_check_service sv incident of
             None \<Rightarrow> (Inl ExternalServiceError, w)
           | Some r \<Rightarrow> (Inr r, w)))"

text \<open>
  Modelled from the spec: \<open>close\<close> of section 4.1, "fails with NotFoundError if unknown;
  sets status=resolved, updated_at=now"; the answer is the updated incident (section 6).
\<close>

definition store_close :: "jsstring \<Rightarrow> world \<Rightarrow> (api_error + incident) \<times> world" where
  "store_close iid w =
     (case find (\<lambda>i. id' i = iid) (store w) of
        None \<Rightarrow> (Inl NotFoundError, w)
      | Some incident \<Rightarrow>
          (Inr (incident\<lparr>status := Resolved, updated_at := clock w\<rparr>),
           update_incident iid (\<lambda>i. i\<lparr>status := Resolved, updated_at := clock w\<rparr>) w))"

text \<open>
  Modelled from the spec: the HTTP surface of section 6. A result is answered with
  status 200 and the result as body, an error with a status outside 200 to 299 (the
  spec names none; 422, 404 and 502 are used) and no JSON the client reads.
\<close>

definition respond :: "(api_error + 'a) \<times> world \<Rightarrow> 'a fetch_result \<times> world" where
  "respond rw =
     (case rw of
        (Inr v, w) \<Rightarrow> (Response 200 (Some v), w)
      | (Inl ValidationError, w) \<Rightarrow> (Response 422 None, w)
      | (Inl NotFoundError, w) \<Rightarrow> (Response 404 None, w)
      | (Inl ExternalServiceError, w) \<Rightarrow> (Response 502 None, w))"

text \<open>
  Modelled from the spec: the passing of time. "now" is the reading of the clock when a
  request arrives; serving the request takes time, so the next request finds a later
  reading (section 3: "updated_at bumped on each mutation"; section 8: "updated_at
  strictly increases"). Between two requests any further time may pass.
\<close>

definition served :: "'a \<times> world \<Rightarrow> 'a \<times> world" where
  "served rw = (case rw of (r, w) \<Rightarrow> (r, w\<lparr>clock := clock w + 1\<rparr>))"

definition advance :: "nat \<Rightarrow> world \<Rightarrow> world" where
  "advance dt w = w\<lparr>clock := clock w + int dt\<rparr>"

definition backend :: "services \<Rightarrow> world api" where
  "backend sv =
     \<lparr>post_incidents = (\<lambda>request w. served (respond (store_create sv request w))),
      get_incidents = (\<lambda>w. served (respond (store_list w))),
      post_analyze = (\<lambda>iid w. served (respond (store_analyze sv iid w))),
      post_execute_action =
        (\<lambda>iid actionId ps w. served (respond (store_executeAction sv iid actionId ps w))),
      post_health_check = (\<lambda>iid w. served (respond (store_healthCheck sv iid w))),
      post_close = (\<lambda>iid w. served (respond (store_close iid w)))\<rparr>"

text \<open>
  Modelled from the spec: the invariant of section 3, "an incident's id is unique across
  the store", for ids drawn from the counter: every stored id is the rendering of a
  counter value already used, and no two incidents share one.
\<close>

definition store_inv :: "services \<Rightarrow> world \<Rightarrow> bool" where
  "store_inv sv w =
     (distinct (map id' (store w))
      \<and> list_all (\<lambda>i. id' i \<in> set (map (mk_id sv) [0..<next_id w])) (store w))"

text \<open>
  Modelled from the spec: every \<open>updated_at\<close> of the store is a reading of the clock at
  an earlier request. It holds of the empty store and every request keeps it.
\<close>

definition timestamps_past :: "world \<Rightarrow> bool" where
  "timestamps_past w = list_all (\<lambda>i. updated_at i < clock w) (store w)"

text \<open>
  Modelled from the spec: the incident of a given id is in the store and resolved
  (section 3, "resolving is terminal").
\<close>

definition resolved_in_store :: "jsstring \<Rightarrow> world \<Rightarrow> bool" where
  "resolved_in_store iid w =
     (map_option status (find (\<lambda>i. id' i = iid) (store w)) = Some Resolved)"

section \<open>Example inputs\<close>

text \<open>Concrete incidents and answers, at which the theorems below are evaluated.\<close>

definition sample :: "jsstring \<Rightarrow> severity \<Rightarrow> incident_status \<Rightarrow> timestamp \<Rightarrow> incident" where
  "sample iid sev st t =
     \<lparr>title = lit ''Database latency'', description = lit ''p99 above threshold'',
      component = lit ''database'', severity = sev, affected_service = lit ''orders'',
      status = st, created_at = t, updated_at = t, id' = iid\<rparr>"

definition critical_first :: "incident list" where
  "critical_first = [sample (lit ''a'') Critical Open 1000, sample (lit ''b'') High Open 2000]"

definition six_incidents :: "incident list" where
  "six_incidents =
     [sample (lit ''a'') Low Open 30, sample (lit ''b'') High Resolved 10,
      sample (lit ''c'') Low Open 60, sample (lit ''d'') Medium Open 20,
      sample (lit ''e'') Critical Open 50, sample (lit ''f'') Low Analyzing 40]"

definition no_replies :: replies where
  "no_replies =
     \<lparr>create_reply = Rejected, list_reply = Rejected, analyze_reply = Rejected,
      execute_reply = Rejected, health_reply = Rejected, close_reply = Rejected\<rparr>"

definition initial_metrics :: health_metrics where
  "initial_metrics =
     \<lparr>componentHealth = Map.empty, totalIncidents = 0, activeIncidents = 0,
      criticalIncidents = 0\<rparr>"

definition loaded_page :: details where
  "loaded_page =
     \<lparr>d_incident = Some (sample (lit ''a'') High Analyzing 1000), d_analysis = lit ''disk full'',
      d_actions = [], d_isLoading = False, d_healthStatus = Some Degraded, d_toast = None\<rparr>"

text \<open>The template string of the popup's link, around the encoded command.\<close>

definition splunk_link :: "jsstring \<Rightarrow> jsstring" where
  "splunk_link q =
     lit ''https://splunk.example.com/search?q=search%20command%3D'' @ q
     @ lit ''&earliest=-1h&latest=now''"

text \<open>
  The states of a popup that mounting, rendering and the passing of time lead to: a
  pending timeout has between 1 and 2000 milliseconds to go; once none is pending, the
  status is \<open>completed\<close> and the link, for a command that can be encoded, is the link of
  that command.
\<close>

definition popup_ok :: "popup \<Rightarrow> bool" where
  "popup_ok p =
     (case timer p of
        None \<Rightarrow>
          p_status p = Completed
          \<and> (case encodeURIComponent (p_command p) of
                Inl e \<Rightarrow> True
              | Inr q \<Rightarrow> splunkLink p = splunk_link q)
      | Some delay \<Rightarrow> 0 < delay \<and> delay \<le> 2000)"

text \<open>
  A server for the examples: its collaborators always answer, the action succeeds, and
  the id of the n-th incident is n + 1 letters \<open>i\<close>.
\<close>

definition unary_id :: "nat \<Rightarrow> jsstring" where
  "unary_id n = replicate (Suc n) 0x69"

definition demo_services :: services where
  "demo_services =
     \<lparr>analysis_service =
        (\<lambda>i. Some \<lparr>analysis = lit ''High CPU on the gateway'', recommended_actions = []\<rparr>),
      health_check_service = (\<lambda>i. Some \<lparr>hc_status = Degraded, hc_message = lit ''cpu 95%''\<rparr>),
      action_executor = (\<lambda>iid actionId ps. \<lparr>success = True, message = lit ''restarted''\<rparr>),
      mk_id = unary_id\<rparr>"

definition empty_world :: "timestamp \<Rightarrow> world" where
  "empty_world t = \<lparr>store = [], next_id = 0, clock = t\<rparr>"

text \<open>
  The world after Quick Actions has created its incident, the browser's clock reading
  990 and 991 and the server's 1000 when the request arrives.
\<close>

definition world_after_create :: world where
  "world_after_create =
     snd (createIncident (backend demo_services) (new_incident_fields 990 991) (empty_world 1000))"

definition gateway_incident :: "incident_status \<Rightarrow> incident" where
  "gateway_incident st =
     \<lparr>title = lit ''API Gateway High CPU Usage'',
      description =
        lit ''API Gateway is experiencing high CPU usage causing increased response times.'',
      component = lit ''api-gateway'', severity = High,
      affected_service = lit ''customer-portal'', status = st, created_at = 1000,
      updated_at = 1000, id' = unary_id 0\<rparr>"

definition blank_page :: details where
  "blank_page =
     \<lparr>d_incident = None, d_analysis = [], d_actions = [], d_isLoading = False,
      d_healthStatus = None, d_toast = None\<rparr>"

text \<open>
  Three steps of a user on that world: Close is clicked in Recent Activity; the row's
  link is followed, which opens the details page; Recent Activity refreshes.
\<close>

definition after_close :: "(recent_activity \<times> jsstring option) \<times> world" where
  "after_close =
     handleCloseIncident (backend demo_services) (unary_id 0)
       \<lparr>shown = store world_after_create, isClosing = Map.empty, refreshKey = 0\<rparr>
       world_after_create"

definition after_details :: "details \<times> world" where
  "after_details =
     fetchIncidentDetails (backend demo_services) (unary_id 0) blank_page (snd after_close)"

definition after_refresh :: "recent_activity \<times> world" where
  "after_refresh =
     RecentActivity_fetchIncidents (backend demo_services) (fst (fst after_close))
       (snd after_details)"

text \<open>The same server with an Action Executor whose actions fail.\<close>

definition failing_services :: services where
  "failing_services =
     demo_services\<lparr>action_executor :=
       (\<lambda>iid actionId ps. \<lparr>success = False, message = lit ''restart failed''\<rparr>)\<rparr>"

text \<open>
  Answers of a server on which incident \<open>b\<close>, the oldest of six, has just been closed.
\<close>

definition closing_replies :: replies where
  "closing_replies =
     no_replies\<lparr>close_reply := Response 200 (Some (sample (lit ''b'') High Resolved 10)),
                list_reply := Response 200 (Some six_incidents),
                analyze_reply :=
                  Response 200 (Some \<lparr>analysis = lit ''disk full'', recommended_actions = []\<rparr>),
                health_reply :=
                  Response 200 (Some \<lparr>hc_status = Healthy, hc_message = lit ''ok''\<rparr>)\<rparr>"

definition showing_b :: recent_activity where
  "showing_b =
     \<lparr>shown = [sample (lit ''b'') High Open 10], isClosing = Map.empty, refreshKey = 0\<rparr>"

chapter \<open>Theorems\<close>

section \<open>The Run affordance of a code block\<close>

lemma replace_first_prefix:
  "startsWith s p \<Longrightarrow> replace_first p r s = r @ drop (length p) s"
  by (cases s) (auto simp: startsWith_def)

lemma length_command_prefix: "length (lit ''command:'') = 8"
  by (simp add: lit_def)

text \<open>
  C3. For every code block, with \<open>content\<close> the block's text without its final line feed:
  the Run button is rendered if and only if \<open>content\<close> starts with \<open>command:\<close>, and the
  command its click passes to execution is \<open>content\<close> without these eight code units,
  trimmed; a block without the prefix has no Run button and is displayed unchanged.
\<close>

theorem code_run_button:
  "run_button (code children) =
     (if startsWith (strip_final_newline children) (lit ''command:'')
      then Some (trim (drop 8 (strip_final_newline children)))
      else None)"
  by (simp add: code_def Let_def replace_first_prefix length_command_prefix)

theorem code_run_button_witness:
  "run_button (code (lit ''command: kubectl get pods'' @ [0xA])) = Some (lit ''kubectl get pods'')
   \<and> run_button (code (lit ''kubectl get pods'' @ [0xA])) = None"
  using code_run_button [of "lit ''command: kubectl get pods'' @ [0xA]"]
        code_run_button [of "lit ''kubectl get pods'' @ [0xA]"]
  by (simp add: lit_def startsWith_def strip_final_newline_def trim_def isWhiteSpace_def)

text \<open>
  The final line feed makes no difference: the same holds of the text of the code node
  as it is given to the renderer.
\<close>

lemma trim_snoc_space:
  assumes "isWhiteSpace c"
  shows "trim (xs @ [c]) = trim xs"
proof (cases "\<forall>x\<in>set xs. isWhiteSpace x")
  case True
  then have a: "dropWhile isWhiteSpace xs = []"
    by (simp only: dropWhile_eq_Nil_conv)
  from True assms have "\<forall>x\<in>set (xs @ [c]). isWhiteSpace x"
    by simp
  then have b: "dropWhile isWhiteSpace (xs @ [c]) = []"
    by (simp only: dropWhile_eq_Nil_conv)
  show ?thesis
    unfolding trim_def a b by simp
next
  case False
  then have "dropWhile isWhiteSpace (xs @ [c]) = dropWhile isWhiteSpace xs @ [c]"
    by (metis dropWhile_append1)
  with assms show ?thesis by (simp add: trim_def)
qed

lemma strip_snoc: "strip_final_newline (t @ [0xA]) = t"
  by (simp add: strip_final_newline_def)

lemma strip_cases: "strip_final_newline s = s \<or> (\<exists>t. s = t @ [0xA])"
  by (cases s rule: rev_cases) (simp_all add: strip_final_newline_def)

lemma prefix_not_newline_ended:
  assumes "take 8 (t @ [0xA :: 16 word]) = lit ''command:''"
  shows "8 \<le> length t"
proof (rule ccontr)
  assume n: "\<not> 8 \<le> length t"
  have "length (take 8 (t @ [0xA :: 16 word])) = 8"
    using assms by (simp only: length_command_prefix)
  with n have "length t = 7" by simp
  with assms have "t @ [0xA] = lit ''command:''" by simp
  then have "last (lit ''command:'') = (0xA :: 16 word)" by (metis last_snoc)
  then show False by (simp add: lit_def)
qed

lemma startsWith_strip:
  "startsWith (strip_final_newline s) (lit ''command:'') = startsWith s (lit ''command:'')"
proof -
  from strip_cases [of s] show ?thesis
  proof
    assume "strip_final_newline s = s"
    then show ?thesis by simp
  next
    assume "\<exists>t. s = t @ [0xA]"
    then obtain t where s: "s = t @ [0xA]" by blast
    show ?thesis
    proof (cases "8 \<le> length t")
      case True
      then show ?thesis by (simp add: s strip_snoc startsWith_def length_command_prefix)
    next
      case False
      then have "length (take 8 t) < 8" by simp
      then have a: "take 8 t \<noteq> lit ''command:''"
        using length_command_prefix by auto
      have b: "take 8 (t @ [0xA]) \<noteq> lit ''command:''"
        using prefix_not_newline_ended [of t] False by blast
      show ?thesis
        unfolding s strip_snoc using a b by (simp only: startsWith_def length_command_prefix)
    qed
  qed
qed

lemma trim_drop_strip:
  assumes "startsWith s (lit ''command:'')"
  shows "trim (drop 8 (strip_final_newline s)) = trim (drop 8 s)"
proof -
  from strip_cases [of s] show ?thesis
  proof
    assume "strip_final_newline s = s"
    then show ?thesis by simp
  next
    assume "\<exists>t. s = t @ [0xA]"
    then obtain t where s: "s = t @ [0xA]" by blast
    have "take 8 (t @ [0xA]) = lit ''command:''"
      using assms by (simp add: s startsWith_def length_command_prefix)
    then have "8 \<le> length t"
      by (rule prefix_not_newline_ended)
    then have "drop 8 (t @ [0xA]) = drop 8 t @ [0xA]" by simp
    moreover have "isWhiteSpace 0xA" by (simp add: isWhiteSpace_def)
    ultimately show ?thesis
      unfolding s strip_snoc by (simp add: trim_snoc_space)
  qed
qed

lemma code_run_button_raw:
  "run_button (code children) =
     (if startsWith children (lit ''command:'') then Some (trim (drop 8 children)) else None)"
  by (simp add: code_def Let_def replace_first_prefix length_command_prefix startsWith_strip
      trim_drop_strip)

section \<open>Component health on the System Health page\<close>

text \<open>
  C1. The claim: a component with an unresolved critical incident is shown as unhealthy,
  whatever the order of the incidents. The loop overwrites the status at every
  unresolved critical or high incident, so the last one decides: for the component
  \<open>database\<close>, an open critical incident followed by an open high incident gives
  \<open>degraded\<close>, and the same two incidents in the other order give \<open>unhealthy\<close>.
\<close>

theorem health_degraded_despite_critical:
  "shown_status
     (fst (SystemHealth_fetchMetrics
             (answering (no_replies\<lparr>list_reply := Response 200 (Some critical_first)\<rparr>))
             initial_metrics ()))
     (lit ''database'') = Some Degraded
   \<and> shown_status
       (fst (SystemHealth_fetchMetrics
               (answering (no_replies\<lparr>list_reply := Response 200 (Some (rev critical_first))\<rparr>))
               initial_metrics ()))
       (lit ''database'') = Some Unhealthy"
  by (simp add: SystemHealth_fetchMetrics_def getIncidents_def answering_def no_replies_def
      checked_json_def ok_def shown_status_def calculateComponentHealth_def critical_first_def
      sample_def componentHealth_step_def Let_def inherited_property_def lit_def)

text \<open>
  What the loop computes, for a list in which no component is \<open>__proto__\<close>: a component
  named like an inherited property has no row; for any other component the status shown
  is decided by the last incident of the list at which the loop writes it, and is
  \<open>healthy\<close> when there is none.
\<close>

lemma database_not_inherited:
  "\<not> inherited_property (lit ''database'')"
  by (simp add: inherited_property_def lit_def)

lemma calculate_snoc:
  "calculateComponentHealth (xs @ [x]) = componentHealth_step x (calculateComponentHealth xs)"
  by (simp add: calculateComponentHealth_def)

lemma step_other:
  "component x \<noteq> c \<Longrightarrow> componentHealth_step x m c = m c"
  by (simp add: componentHealth_step_def Let_def)

lemma step_inherited:
  "inherited_property (component x) \<Longrightarrow> componentHealth_step x m = m"
  by (simp add: componentHealth_step_def Let_def)

lemma step_same_status:
  "\<not> inherited_property (component x) \<Longrightarrow>
   map_option ch_status (componentHealth_step x m (component x)) =
     Some (if status x \<noteq> Resolved \<and> severity x = Critical then Unhealthy
           else if status x \<noteq> Resolved \<and> severity x = High then Degraded
           else (case m (component x) of None \<Rightarrow> Healthy | Some h \<Rightarrow> ch_status h))"
  by (simp add: componentHealth_step_def Let_def split: option.splits)

lemma no_row_for_inherited:
  "inherited_property c \<Longrightarrow> calculateComponentHealth incidents c = None"
proof (induction incidents rule: rev_induct)
  case Nil
  show ?case by (simp add: calculateComponentHealth_def)
next
  case (snoc x xs)
  show ?case
  proof (cases "component x = c")
    case True
    with snoc show ?thesis
      by (simp add: calculate_snoc step_inherited)
  next
    case False
    with snoc show ?thesis
      by (simp add: calculate_snoc step_other)
  qed
qed

lemma status_by_last_decisive:
  assumes "lit ''__proto__'' \<notin> component ` set incidents"
  shows "map_option ch_status (calculateComponentHealth incidents c) =
     (if inherited_property c \<or> c \<notin> component ` set incidents then None
      else (case rev (filter (decisive c) incidents) of
              [] \<Rightarrow> Some Healthy
            | i # _ \<Rightarrow> Some (if severity i = Critical then Unhealthy else Degraded)))"
proof (cases "inherited_property c")
  case True
  then show ?thesis
    by (simp add: no_row_for_inherited)
next
  case ni: False
  have "map_option ch_status (calculateComponentHealth incidents c) =
     (if c \<notin> component ` set incidents then None
      else (case rev (filter (decisive c) incidents) of
              [] \<Rightarrow> Some Healthy
            | i # _ \<Rightarrow> Some (if severity i = Critical then Unhealthy else Degraded)))"
  proof (induction incidents rule: rev_induct)
    case Nil
    show ?case by (simp add: calculateComponentHealth_def)
  next
    case (snoc x xs)
    show ?case
    proof (cases "component x = c")
      case False
      then have "\<not> decisive c x"
        by (simp add: decisive_def)
      with False show ?thesis
        using snoc by (simp add: calculate_snoc step_other)
    next
      case True
      with ni have nx: "\<not> inherited_property (component x)"
        by simp
      have s: "map_option ch_status (calculateComponentHealth (xs @ [x]) c) =
       Some (if status x \<noteq> Resolved \<and> severity x = Critical then Unhealthy
             else if status x \<noteq> Resolved \<and> severity x = High then Degraded
             else (case calculateComponentHealth xs c of None \<Rightarrow> Healthy | Some h \<Rightarrow> ch_status h))"
        using step_same_status [OF nx, of "calculateComponentHealth xs", unfolded True]
        by (simp only: calculate_snoc)
      show ?thesis
      proof (cases "decisive c x")
        case d: True
        with True show ?thesis
          unfolding s by (auto simp: decisive_def)
      next
        case d: False
        with True have nd: "\<not> (status x \<noteq> Resolved \<and> severity x = Critical)"
          "\<not> (status x \<noteq> Resolved \<and> severity x = High)"
          by (auto simp: decisive_def)
        show ?thesis
        proof (cases "calculateComponentHealth xs c")
          case None
          with snoc have "c \<notin> component ` set xs"
            by (auto split: if_splits list.splits)
          then have "filter (decisive c) xs = []"
            by (auto simp: decisive_def filter_empty_conv)
          with None d True nd show ?thesis
            unfolding s by simp
        next
          case (Some h)
          with snoc have "c \<in> component ` set xs"
            by (auto split: if_splits)
          with snoc Some d True nd show ?thesis
            unfolding s by (simp split: list.splits)
        qed
      qed
    qed
  qed
  with ni show ?thesis
    by simp
qed

section \<open>Responses outside 200 to 299\<close>

lemma checked_json_not_ok: "\<not> ok sc \<Longrightarrow> checked_json msg (Response sc body) = Inl (Error msg)"
  by (simp add: checked_json_def)

lemma checked_json_ok: "ok sc \<Longrightarrow> checked_json msg (Response sc (Some v)) = Inr v"
  by (simp add: checked_json_def)

text \<open>
  Each of the six methods of \<open>IncidentService\<close> throws its own error on a response that
  is not ok, and returns no body.
\<close>

lemma service_throws_on_non_2xx:
  assumes "\<not> ok sc"
  shows "post_incidents net incident w = (Response sc b1, w') \<Longrightarrow>
           createIncident net incident w = (Inl (Error (lit ''Failed to create incident'')), w')"
    and "get_incidents net w = (Response sc b2, w') \<Longrightarrow>
           getIncidents net w = (Inl (Error (lit ''Failed to fetch incidents'')), w')"
    and "post_analyze net incidentId w = (Response sc b3, w') \<Longrightarrow>
           analyzeIncident net incidentId w
             = (Inl (Error (lit ''Failed to analyze incident'')), w')"
    and "post_execute_action net incidentId actionId ps w = (Response sc b4, w') \<Longrightarrow>
           executeAction net incidentId actionId ps w
             = (Inl (Error (lit ''Failed to execute action'')), w')"
    and "post_health_check net incidentId w = (Response sc b5, w') \<Longrightarrow>
           getHealthCheck net incidentId w
             = (Inl (Error (lit ''Failed to get health check'')), w')"
    and "post_close net incidentId w = (Response sc b6, w') \<Longrightarrow>
           closeIncident net incidentId w = (Inl (Error (lit ''Failed to close incident'')), w')"
  using assms
  by (simp_all add: createIncident_def getIncidents_def analyzeIncident_def executeAction_def
      getHealthCheck_def closeIncident_def checked_json_not_ok)

text \<open>The chat never reads the status of the response.\<close>

lemma chat_ignores_status:
  "handleSubmit now1 now2 (Response sc body) st = handleSubmit now1 now2 (Response 200 body) st"
  by (simp add: handleSubmit_def)

text \<open>
  C2. The claim: every operation, the chat's query submission included, treats a response
  outside 200 to 299 as a failure. \<open>handleSubmit\<close> does not: on the answer 500 with the
  JSON body \<open>{"detail": "Internal Server Error"}\<close> it appends an assistant message whose
  content is the body's \<open>result\<close>, which is undefined, and not its error message.
\<close>

theorem chat_accepts_error_response:
  "messages
     (handleSubmit 1000 2000
        (Response 500 (Some (JObj [(lit ''detail'', JStr (lit ''Internal Server Error''))])))
        \<lparr>messages = [], input = lit ''test query'', isLoading = False\<rparr>)
   = [\<lparr>msg_id = 1000, msg_type = User, content = Some (JStr (lit ''test query'')),
       sources = None\<rparr>,
      \<lparr>msg_id = 2001, msg_type = Assistant, content = None, sources = None\<rparr>]"
  by (simp add: handleSubmit_def Let_def trim_def isWhiteSpace_def lit_def)

section \<open>What the details page does with the result of an action\<close>

text \<open>
  When the service call returns a result whose \<open>success\<close> is false, the page's handler
  sets no toast, neither the success nor the error one: apart from \<open>isLoading\<close>, which is
  false again, the page is as it was.
\<close>

lemma failed_result_sets_no_toast:
  assumes "executeAction net incidentId actionId [] w = (Inr result, w1)"
    and "\<not> success result"
  shows "IncidentDetails_executeAction net incidentId actionId page w
           = (page\<lparr>d_isLoading := False\<rparr>, w1)"
  using assms by (simp add: IncidentDetails_executeAction_def)

text \<open>
  A success toast is set only after a result whose \<open>success\<close> is true: if the handler
  leaves a success toast that was not there before, the service call returned such a
  result.
\<close>

lemma success_toast_only_on_success:
  assumes "IncidentDetails_executeAction net incidentId actionId page w = (page', w')"
    and "d_toast page' = Some t" and "toast_type t = Success" and "d_toast page \<noteq> Some t"
  shows "\<exists>result w1. executeAction net incidentId actionId [] w = (Inr result, w1)
                    \<and> success result"
  using assms
  by (auto simp: IncidentDetails_executeAction_def Let_def failed_toast_def
      split: prod.splits sum.splits if_splits option.splits)

section \<open>Recent Activity shows the five newest incidents\<close>

lemma mset_insert_sorted: "mset (insert_sorted f x xs) = add_mset x (mset xs)"
  by (induction xs) auto

lemma mset_Array_sort: "mset (Array_sort f xs) = mset xs"
  by (induction xs) (auto simp: Array_sort_def mset_insert_sorted)

lemma set_insert_sorted: "set (insert_sorted f x xs) = insert x (set xs)"
  by (induction xs) auto

lemma sorted_insert_newest_first:
  "sorted_wrt (\<lambda>a b. created_at b \<le> created_at a) xs
   \<Longrightarrow> sorted_wrt (\<lambda>a b. created_at b \<le> created_at a) (insert_sorted newest_first x xs)"
  by (induction xs) (auto simp: set_insert_sorted newest_first_def)

lemma sorted_Array_sort:
  "sorted_wrt (\<lambda>a b. created_at b \<le> created_at a) (Array_sort newest_first xs)"
  by (induction xs) (auto simp: Array_sort_def sorted_insert_newest_first)

text \<open>
  C8. When \<open>getIncidents\<close> returns the list \<open>data\<close>, the incidents shown are the first
  \<open>min 5 (length data)\<close> of an arrangement of \<open>data\<close> in descending order of
  \<open>created_at\<close>: some \<open>rest\<close> completes them to a permutation of \<open>data\<close> that is sorted
  newest first. So the list shown is sorted, has at most five incidents, and no incident
  left out is newer than one shown.
\<close>

theorem recent_activity_newest_five:
  assumes "getIncidents net w = (Inr data, w')"
  shows "\<exists>rest. mset (shown (fst (RecentActivity_fetchIncidents net st w)) @ rest) = mset data
           \<and> sorted_wrt (\<lambda>a b. created_at b \<le> created_at a)
                (shown (fst (RecentActivity_fetchIncidents net st w)) @ rest)
           \<and> length (shown (fst (RecentActivity_fetchIncidents net st w)))
               = min 5 (length data)"
proof -
  let ?s = "Array_sort newest_first data"
  have sh: "shown (fst (RecentActivity_fetchIncidents net st w)) = take 5 ?s"
    using assms by (simp add: RecentActivity_fetchIncidents_def)
  have len: "length ?s = length data"
    using mset_Array_sort [of newest_first data] by (metis size_mset)
  have "mset (take 5 ?s @ drop 5 ?s) = mset data"
    by (simp add: mset_Array_sort)
  moreover have "sorted_wrt (\<lambda>a b. created_at b \<le> created_at a) (take 5 ?s @ drop 5 ?s)"
    by (simp add: sorted_Array_sort)
  moreover have "length (take 5 ?s) = min 5 (length data)"
    using len by simp
  ultimately show ?thesis
    unfolding sh by blast
qed

theorem recent_activity_newest_five_witness:
  "map created_at
     (shown (fst (RecentActivity_fetchIncidents
                    (answering (no_replies\<lparr>list_reply := Response 200 (Some six_incidents)\<rparr>))
                    \<lparr>shown = [], isClosing = Map.empty, refreshKey = 0\<rparr> ())))
   = [60, 50, 40, 30, 20]
   \<and> (\<exists>rest.
        mset (shown (fst (RecentActivity_fetchIncidents
                            (answering (no_replies\<lparr>list_reply := Response 200 (Some six_incidents)\<rparr>))
                            \<lparr>shown = [], isClosing = Map.empty, refreshKey = 0\<rparr> ())) @ rest)
          = mset six_incidents
        \<and> sorted_wrt (\<lambda>a b. created_at b \<le> created_at a)
            (shown (fst (RecentActivity_fetchIncidents
                           (answering (no_replies\<lparr>list_reply := Response 200 (Some six_incidents)\<rparr>))
                           \<lparr>shown = [], isClosing = Map.empty, refreshKey = 0\<rparr> ())) @ rest)
        \<and> length (shown (fst (RecentActivity_fetchIncidents
                           (answering (no_replies\<lparr>list_reply := Response 200 (Some six_incidents)\<rparr>))
                           \<lparr>shown = [], isClosing = Map.empty, refreshKey = 0\<rparr> ())))
            = min 5 (length six_incidents))"
proof -
  have got: "getIncidents
               (answering (no_replies\<lparr>list_reply := Response 200 (Some six_incidents)\<rparr>)) ()
             = (Inr six_incidents, ())"
    by (simp add: getIncidents_def answering_def no_replies_def checked_json_def ok_def)
  have order: "map created_at (take 5 (Array_sort newest_first six_incidents))
               = [60, 50, 40, 30, 20]"
    by (simp add: Array_sort_def newest_first_def six_incidents_def sample_def)
  show ?thesis
    using recent_activity_newest_five [OF got] order got
    by (simp add: RecentActivity_fetchIncidents_def)
qed

section \<open>The simulated execution popup\<close>

lemma unreserved_not_surrogate: "uriUnreserved c \<Longrightarrow> \<not> is_lead c \<and> \<not> is_trail c"
  by (auto simp: uriUnreserved_def is_lead_def is_trail_def word_le_nat_alt)

lemma lead_not_trail: "is_lead c \<Longrightarrow> \<not> is_trail c"
  by (auto simp: is_lead_def is_trail_def word_le_nat_alt)

text \<open>\<open>encodeURIComponent\<close> returns exactly on the well-formed strings.\<close>

lemma encode_total_iff_well_formed:
  "(\<exists>q. encodeURIComponent s = Inr q) = well_formed s"
proof (induction s rule: well_formed.induct)
  case 1
  show ?case by simp
next
  case (2 c)
  show ?case
    using unreserved_not_surrogate [of c] by auto
next
  case (3 c d ds)
  show ?case
  proof (cases "is_lead c")
    case True
    with 3 unreserved_not_surrogate [of c] lead_not_trail [of c] show ?thesis
      by (auto split: sum.splits)
  next
    case False
    with 3 unreserved_not_surrogate [of c] show ?thesis
      by (cases "encodeURIComponent (d # ds)")
         (auto simp del: encodeURIComponent.simps(2) simp: encodeURIComponent.simps(2) [of c])
  qed
qed

text \<open>Time may pass in several steps: only the total counts.\<close>

lemma elapse_twice: "fst (elapse b (fst (elapse a p))) = fst (elapse (a + b) p)"
  by (cases "timer p"; cases "encodeURIComponent (p_command p)")
     (auto simp: elapse_def timer_fired_def Let_def)

text \<open>Mounting, rendering and the passing of time keep the popup in the states above.\<close>

lemma popup_ok_mount: "popup_ok (ExecutionPopup_mount command)"
  by (simp add: popup_ok_def ExecutionPopup_mount_def)

lemma popup_ok_rerender: "popup_ok p \<Longrightarrow> popup_ok (ExecutionPopup_rerender command p)"
  by (simp add: popup_ok_def ExecutionPopup_rerender_def)

lemma popup_ok_fired: "popup_ok (fst (timer_fired p))"
  by (cases "encodeURIComponent (p_command p)")
     (simp_all add: popup_ok_def timer_fired_def Let_def splunk_link_def)

lemma popup_ok_elapse: "popup_ok p \<Longrightarrow> popup_ok (fst (elapse ms p))"
proof (cases "timer p")
  case None
  assume "popup_ok p"
  with None show ?thesis by (simp add: elapse_def)
next
  case (Some delay)
  assume ok: "popup_ok p"
  show ?thesis
  proof (cases "ms < delay")
    case True
    with Some ok show ?thesis by (simp add: elapse_def popup_ok_def)
  next
    case False
    with Some show ?thesis by (simp add: elapse_def popup_ok_fired)
  qed
qed

lemma popup_ok_handleExecuteCommand:
  "(case executionPopup of None \<Rightarrow> True | Some p \<Rightarrow> popup_ok p)
   \<Longrightarrow> popup_ok (handleExecuteCommand command executionPopup)"
  by (cases executionPopup)
     (simp_all add: handleExecuteCommand_def popup_ok_mount popup_ok_rerender)

text \<open>Once 2000 milliseconds have passed, no timeout is pending.\<close>

lemma settled_after_two_seconds:
  assumes "popup_ok p" and "2000 \<le> ms"
  shows "timer (fst (elapse ms p)) = None \<and> p_command (fst (elapse ms p)) = p_command p"
proof (cases "timer p")
  case None
  then show ?thesis by (simp add: elapse_def)
next
  case (Some delay)
  with assms have "\<not> ms < delay" by (simp add: popup_ok_def)
  with Some show ?thesis
    by (cases "encodeURIComponent (p_command p)")
       (simp_all add: elapse_def timer_fired_def Let_def)
qed

lemma p_command_handleExecuteCommand:
  "p_command (handleExecuteCommand command executionPopup) = command"
  by (cases executionPopup)
     (simp_all add: handleExecuteCommand_def ExecutionPopup_mount_def
        ExecutionPopup_rerender_def)

lemma encode_example:
  "encodeURIComponent (lit ''ls -l /tmp'') = Inr (lit ''ls%20-l%20%2Ftmp'')"
  by (simp add: lit_def uriUnreserved_def is_lead_def is_trail_def escape_def utf8_def
      hex_digit_def)

lemma encode_whoami: "encodeURIComponent (lit ''whoami'') = Inr (lit ''whoami'')"
  by (simp add: lit_def uriUnreserved_def)

text \<open>
  C9, as stated, fails in two ways. For a command with an unpaired surrogate
  \<open>encodeURIComponent\<close> throws, and the popup reports success with an empty link. And a
  Run on a second command while the popup is open and completed makes the popup report
  success at once, with the link of the first command, until the new timeout fires.
\<close>

theorem popup_lone_surrogate:
  "encodeURIComponent [0xD800] = Inl URIError
   \<and> elapse 2000 (handleExecuteCommand [0xD800] None)
       = (\<lparr>p_command = [0xD800], p_status = Completed, splunkLink = [], timer = None\<rparr>,
          Some URIError)
   \<and> ExecutionPopup_render (fst (elapse 2000 (handleExecuteCommand [0xD800] None)))
       = Succeeded []
   \<and> ExecutionPopup_render
        (fst (elapse 1999
           (handleExecuteCommand (lit ''whoami'')
              (Some (fst (elapse 2000 (handleExecuteCommand (lit ''ls -l /tmp'') None)))))))
       = Succeeded (splunk_link (lit ''ls%20-l%20%2Ftmp''))"
proof -
  have thrown: "encodeURIComponent [0xD800] = Inl URIError"
    by (simp add: uriUnreserved_def is_lead_def is_trail_def)
  have other: "lit ''whoami'' \<noteq> lit ''ls -l /tmp''"
    by (simp add: lit_def)
  show ?thesis
    by (simp add: thrown other encode_example elapse_def handleExecuteCommand_def
        ExecutionPopup_mount_def ExecutionPopup_rerender_def ExecutionPopup_render_def
        timer_fired_def splunk_link_def del: encodeURIComponent.simps)
qed

text \<open>
  C9, amended. For every command and every state of the chat's popup (none open, or one
  open in a state it can be in): once 2000 milliseconds have passed since the Run on
  the command, the popup reports "Command executed successfully", and when the command
  is well formed (no unpaired surrogate) the link shown is the Splunk URL around the
  URL-encoded command. A popup that the Run opened shows the spinner until then. The
  popup has no other view.
\<close>

theorem popup_after_two_seconds:
  assumes "case executionPopup of None \<Rightarrow> True | Some p \<Rightarrow> popup_ok p"
  shows "(executionPopup = None \<and> ms < 2000 \<longrightarrow>
            ExecutionPopup_render (fst (elapse ms (handleExecuteCommand command executionPopup)))
              = Spinner)
       \<and> (2000 \<le> ms \<longrightarrow>
            (\<exists>link. ExecutionPopup_render
                      (fst (elapse ms (handleExecuteCommand command executionPopup)))
                      = Succeeded link
                  \<and> (well_formed command \<longrightarrow>
                        (\<exists>q. encodeURIComponent command = Inr q \<and> link = splunk_link q))))"
proof (intro conjI impI)
  assume "executionPopup = None \<and> ms < 2000"
  then show "ExecutionPopup_render (fst (elapse ms (handleExecuteCommand command executionPopup)))
              = Spinner"
    by (simp add: handleExecuteCommand_def elapse_def ExecutionPopup_mount_def
        ExecutionPopup_render_def)
next
  assume late: "2000 \<le> ms"
  let ?p = "handleExecuteCommand command executionPopup"
  let ?r = "fst (elapse ms ?p)"
  have ok: "popup_ok ?p"
    using assms by (rule popup_ok_handleExecuteCommand)
  have settled: "timer ?r = None" and cmd: "p_command ?r = command"
    using settled_after_two_seconds [OF ok late] by (simp_all add: p_command_handleExecuteCommand)
  have okr: "popup_ok ?r"
    using ok by (rule popup_ok_elapse)
  from okr settled have completed: "p_status ?r = Completed"
    by (simp add: popup_ok_def)
  have link: "well_formed command \<longrightarrow>
                (\<exists>q. encodeURIComponent command = Inr q \<and> splunkLink ?r = splunk_link q)"
  proof
    assume "well_formed command"
    then obtain q where q: "encodeURIComponent command = Inr q"
      using encode_total_iff_well_formed [of command] by blast
    with okr settled cmd have "splunkLink ?r = splunk_link q"
      by (simp add: popup_ok_def)
    with q show "\<exists>q. encodeURIComponent command = Inr q \<and> splunkLink ?r = splunk_link q"
      by blast
  qed
  show "\<exists>link. ExecutionPopup_render ?r = Succeeded link
             \<and> (well_formed command \<longrightarrow>
                   (\<exists>q. encodeURIComponent command = Inr q \<and> link = splunk_link q))"
    using completed link by (simp add: ExecutionPopup_render_def)
qed

theorem popup_after_two_seconds_witness:
  "ExecutionPopup_render (fst (elapse 1999 (handleExecuteCommand (lit ''ls -l /tmp'') None)))
     = Spinner
   \<and> ExecutionPopup_render (fst (elapse 2000 (handleExecuteCommand (lit ''ls -l /tmp'') None)))
       = Succeeded (splunk_link (lit ''ls%20-l%20%2Ftmp''))
   \<and> popup_ok (fst (elapse 2000 (handleExecuteCommand (lit ''ls -l /tmp'') None)))
   \<and> ExecutionPopup_render
        (fst (elapse 2000
           (handleExecuteCommand (lit ''whoami'')
              (Some (fst (elapse 2000 (handleExecuteCommand (lit ''ls -l /tmp'') None)))))))
       = Succeeded (splunk_link (lit ''whoami''))"
proof -
  have wf: "well_formed (lit ''ls -l /tmp'')" "well_formed (lit ''whoami'')"
    by (simp_all add: lit_def is_lead_def is_trail_def)
  let ?first = "fst (elapse 2000 (handleExecuteCommand (lit ''ls -l /tmp'') None))"
  have ok: "popup_ok ?first"
    by (intro popup_ok_elapse popup_ok_handleExecuteCommand) simp
  then have ok': "case Some ?first of None \<Rightarrow> True | Some p \<Rightarrow> popup_ok p"
    by simp
  show ?thesis
    using popup_after_two_seconds [of None 1999 "lit ''ls -l /tmp''"]
          popup_after_two_seconds [of None 2000 "lit ''ls -l /tmp''"]
          popup_after_two_seconds [OF ok', of 2000 "lit ''whoami''"]
          wf ok encode_example encode_whoami
    by auto
qed

section \<open>The two resolution rates\<close>

text \<open>
  C10. On the empty list the Metrics page computes NaN (0 / 0, with no guard) and the
  overview computes 100; on every other list the two evaluate the same expression. So
  the two rates differ exactly on the empty list.
\<close>

theorem resolution_rates_differ_on_empty:
  "Metrics_resolutionRate rnd [] = NaN
   \<and> IncidentOverview_resolutionRate rnd [] = Finite 100
   \<and> (Metrics_resolutionRate rnd incidents \<noteq> IncidentOverview_resolutionRate rnd incidents)
       = (incidents = [])"
  by (cases incidents)
     (simp_all add: Metrics_resolutionRate_def IncidentOverview_resolutionRate_def js_div_def
        js_times_def Math_round_def Let_def)

theorem resolution_rates_witness:
  "Metrics_resolutionRate (\<lambda>x. x) [] = NaN
   \<and> IncidentOverview_resolutionRate (\<lambda>x. x) [] = Finite 100
   \<and> Metrics_resolutionRate (\<lambda>x. x) six_incidents = Finite 17
   \<and> IncidentOverview_resolutionRate (\<lambda>x. x) six_incidents = Finite 17"
proof -
  have "Metrics_resolutionRate (\<lambda>x. x) six_incidents = Finite 17"
    by (simp add: Metrics_resolutionRate_def js_div_def js_times_def Math_round_def
        six_incidents_def sample_def)
  then show ?thesis
    using resolution_rates_differ_on_empty [of "\<lambda>x. x" six_incidents]
    by (auto simp: six_incidents_def)
qed

section \<open>The server's store (modelled from the spec)\<close>

lemma inj_unary_id: "inj unary_id"
  by (rule injI) (simp add: unary_id_def)

lemma find_map_same_id:
  assumes "\<And>i. id' (g i) = id' i"
  shows "find (\<lambda>i. id' i = iid) (map g xs) = map_option g (find (\<lambda>i. id' i = iid) xs)"
  by (induction xs) (simp_all add: assms)

lemma find_update_incident:
  assumes "\<And>i. id' (f i) = id' i"
  shows "find (\<lambda>i. id' i = iid) (store (update_incident jid f w))
         = map_option (\<lambda>i. if id' i = jid then f i else i)
             (find (\<lambda>i. id' i = iid) (store w))"
  unfolding update_incident_def
  by (simp add: find_map_same_id [of "\<lambda>i. if id' i = jid then f i else i"] assms)

lemma update_incident_unknown:
  assumes "find (\<lambda>i. id' i = iid) (store w) = None"
  shows "update_incident iid f w = w"
proof -
  from assms have "\<forall>i\<in>set (store w). id' i \<noteq> iid"
    by (simp add: find_None_iff)
  then have "map (\<lambda>i. if id' i = iid then f i else i) (store w) = store w"
    by (simp add: map_idI)
  then show ?thesis
    by (simp add: update_incident_def)
qed

lemma find_snoc:
  "find P (xs @ [y]) = (case find P xs of None \<Rightarrow> find P [y] | Some x \<Rightarrow> Some x)"
  by (induction xs) simp_all

lemma found_in_store:
  "find (\<lambda>i. id' i = iid) xs = Some incident \<Longrightarrow> incident \<in> set xs \<and> id' incident = iid"
  by (induction xs) (auto split: if_splits)

lemma id_begin_analysis: "id' (begin_analysis i) = id' i"
  by (simp add: begin_analysis_def)

lemma id_begin_progress: "id' (begin_progress now i) = id' i"
  by (simp add: begin_progress_def)

text \<open>The world each of the six requests leaves.\<close>

lemma world_after_list:
  "snd (get_incidents (backend sv) w) = w\<lparr>clock := clock w + 1\<rparr>"
  by (simp add: backend_def store_list_def respond_def served_def)

lemma world_after_analyze:
  "snd (post_analyze (backend sv) iid w)
   = (update_incident iid begin_analysis w)\<lparr>clock := clock w + 1\<rparr>"
proof (cases "find (\<lambda>i. id' i = iid) (store w)")
  case None
  then show ?thesis
    by (simp add: backend_def store_analyze_def respond_def served_def
        update_incident_unknown)
next
  case (Some incident)
  then show ?thesis
    by (simp add: backend_def store_analyze_def respond_def served_def Let_def
        update_incident_def split: option.splits)
qed

lemma world_after_execute:
  "snd (post_execute_action (backend sv) iid actionId ps w)
   = (case find (\<lambda>i. id' i = iid) (store w) of
        None \<Rightarrow> w\<lparr>clock := clock w + 1\<rparr>
      | Some incident \<Rightarrow>
          if status incident \<noteq> Resolved \<and> success (action_executor sv iid actionId ps)
          then (update_incident iid (begin_progress (clock w)) w)\<lparr>clock := clock w + 1\<rparr>
          else w\<lparr>clock := clock w + 1\<rparr>)"
  by (simp add: backend_def store_executeAction_def respond_def served_def Let_def
      update_incident_def split: option.splits)

lemma world_after_health_check:
  "snd (post_health_check (backend sv) iid w) = w\<lparr>clock := clock w + 1\<rparr>"
  by (simp add: backend_def store_healthCheck_def respond_def served_def
      split: option.splits)

lemma world_after_close:
  "snd (post_close (backend sv) iid w)
   = (update_incident iid (\<lambda>i. i\<lparr>status := Resolved, updated_at := clock w\<rparr>) w)
       \<lparr>clock := clock w + 1\<rparr>"
proof (cases "find (\<lambda>i. id' i = iid) (store w)")
  case None
  then show ?thesis
    by (simp add: backend_def store_close_def respond_def served_def
        update_incident_unknown)
next
  case (Some incident)
  then show ?thesis
    by (simp add: backend_def store_close_def respond_def served_def update_incident_def)
qed

text \<open>
  Every \<open>updated_at\<close> of the store lies before the clock's reading: so it is in the empty
  store, and every request and every passing of time keeps it so.
\<close>

lemma timestamps_past_empty: "timestamps_past (empty_world t)"
  by (simp add: timestamps_past_def empty_world_def)

lemma timestamps_past_advance: "timestamps_past w \<Longrightarrow> timestamps_past (advance dt w)"
  by (simp add: timestamps_past_def advance_def list_all_iff) force

lemma timestamps_past_tick:
  "timestamps_past w \<Longrightarrow> timestamps_past (w\<lparr>clock := clock w + 1\<rparr>)"
  by (simp add: timestamps_past_def list_all_iff) force

lemma timestamps_past_update:
  assumes "timestamps_past w"
    and "\<And>i. updated_at i < clock w \<Longrightarrow> updated_at (f i) \<le> clock w"
  shows "timestamps_past ((update_incident iid f w)\<lparr>clock := clock w + 1\<rparr>)"
proof -
  have old: "updated_at i < clock w" if "i \<in> set (store w)" for i
    using assms(1) that by (simp add: timestamps_past_def list_all_iff)
  have new: "updated_at (f i) \<le> clock w" if "i \<in> set (store w)" for i
    using assms(2) old that by simp
  show ?thesis
    using old new
    by (auto simp: timestamps_past_def update_incident_def list_all_iff intro: less_imp_le)
qed

lemma timestamps_past_backend:
  assumes "timestamps_past w"
  shows "timestamps_past (snd (post_incidents (backend sv) request w))"
    and "timestamps_past (snd (get_incidents (backend sv) w))"
    and "timestamps_past (snd (post_analyze (backend sv) iid w))"
    and "timestamps_past (snd (post_execute_action (backend sv) iid actionId ps w))"
    and "timestamps_past (snd (post_health_check (backend sv) iid w))"
    and "timestamps_past (snd (post_close (backend sv) iid w))"
proof -
  show "timestamps_past (snd (post_incidents (backend sv) request w))"
    using assms
    by (simp add: backend_def store_create_def respond_def served_def Let_def
        timestamps_past_def list_all_iff) force
  show "timestamps_past (snd (get_incidents (backend sv) w))"
    using assms by (simp add: world_after_list timestamps_past_tick)
  show "timestamps_past (snd (post_analyze (backend sv) iid w))"
    unfolding world_after_analyze
    using assms by (rule timestamps_past_update) (simp add: begin_analysis_def)
  show "timestamps_past (snd (post_execute_action (backend sv) iid actionId ps w))"
    unfolding world_after_execute
    using assms
    by (simp add: timestamps_past_tick timestamps_past_update begin_progress_def
        split: option.splits)
  show "timestamps_past (snd (post_health_check (backend sv) iid w))"
    using assms by (simp add: world_after_health_check timestamps_past_tick)
  show "timestamps_past (snd (post_close (backend sv) iid w))"
    unfolding world_after_close
    using assms by (rule timestamps_past_update) simp
qed

text \<open>
  Resolving is terminal on this server: an incident that is resolved in the store is
  resolved after every request, whichever incident the request names.
\<close>

lemma resolved_clock:
  "resolved_in_store iid (w\<lparr>clock := c\<rparr>) = resolved_in_store iid w"
  by (simp add: resolved_in_store_def)

lemma resolved_update:
  assumes "resolved_in_store iid w"
    and "\<And>i. id' (f i) = id' i"
    and "\<And>i. status i = Resolved \<Longrightarrow> status (f i) = Resolved"
  shows "resolved_in_store iid (update_incident jid f w)"
proof -
  from assms(1) obtain i where i: "find (\<lambda>i. id' i = iid) (store w) = Some i"
    and r: "status i = Resolved"
    by (auto simp: resolved_in_store_def)
  show ?thesis
    by (simp add: resolved_in_store_def find_update_incident [OF assms(2)] i r assms(3))
qed

lemma resolved_kept_by_backend:
  assumes "resolved_in_store iid w"
  shows "resolved_in_store iid (snd (post_incidents (backend sv) request w))"
    and "resolved_in_store iid (snd (get_incidents (backend sv) w))"
    and "resolved_in_store iid (snd (post_analyze (backend sv) jid w))"
    and "resolved_in_store iid (snd (post_execute_action (backend sv) jid actionId ps w))"
    and "resolved_in_store iid (snd (post_health_check (backend sv) jid w))"
    and "resolved_in_store iid (snd (post_close (backend sv) jid w))"
proof -
  show "resolved_in_store iid (snd (post_incidents (backend sv) request w))"
    using assms
    by (auto simp: backend_def store_create_def respond_def served_def Let_def
        resolved_in_store_def find_snoc split: option.splits)
  show "resolved_in_store iid (snd (get_incidents (backend sv) w))"
    using assms by (simp add: world_after_list resolved_clock)
  show "resolved_in_store iid (snd (post_analyze (backend sv) jid w))"
    using assms
    by (simp add: world_after_analyze resolved_clock resolved_update begin_analysis_def)
  show "resolved_in_store iid (snd (post_execute_action (backend sv) jid actionId ps w))"
    using assms
    by (simp add: world_after_execute resolved_clock resolved_update begin_progress_def
        split: option.splits)
  show "resolved_in_store iid (snd (post_health_check (backend sv) jid w))"
    using assms by (simp add: world_after_health_check resolved_clock)
  show "resolved_in_store iid (snd (post_close (backend sv) jid w))"
    using assms by (simp add: world_after_close resolved_clock resolved_update)
qed

text \<open>
  The request of Quick Actions carries the browser's readings 990 and 991; the incident
  created has the server's reading 1000 in both timestamps, and the clock reads 1001
  when the request has been served.
\<close>

lemma world_after_create_eq:
  "world_after_create = \<lparr>store = [gateway_incident Open], next_id = 1, clock = 1001\<rparr>"
  by (simp add: world_after_create_def createIncident_def backend_def store_create_def
      respond_def served_def checked_json_def ok_def Let_def demo_services_def
      empty_world_def new_incident_fields_def gateway_incident_def)

section \<open>An action that succeeds (server modelled from the spec)\<close>

text \<open>What the service call returns for a known incident, case by case.\<close>

lemma executeAction_backend:
  assumes "find (\<lambda>i. id' i = iid) (store w) = Some incident"
  shows "executeAction (backend sv) iid actionId ps w
         = (if status incident = Resolved
            then (Inr resolved_refusal, w\<lparr>clock := clock w + 1\<rparr>)
            else if success (action_executor sv iid actionId ps)
            then (Inr (action_executor sv iid actionId ps),
                  (update_incident iid (begin_progress (clock w)) w)
                    \<lparr>clock := clock w + 1\<rparr>)
            else (Inr (action_executor sv iid actionId ps), w\<lparr>clock := clock w + 1\<rparr>))"
  using assms
  by (simp add: executeAction_def backend_def store_executeAction_def respond_def
      served_def checked_json_def ok_def Let_def update_incident_def)

text \<open>
  C5. After an \<open>executeAction\<close> call that succeeds on a known incident (the service call
  returns a result whose \<open>success\<close> is true), the incident's status is \<open>in_progress\<close> and
  its \<open>updated_at\<close> is strictly greater than it was before the call: it is the clock's
  reading when the request arrived, and every \<open>updated_at\<close> of the store lay before that
  reading, as it still does afterwards.
\<close>

theorem executeAction_success_sets_in_progress:
  assumes "find (\<lambda>i. id' i = iid) (store w) = Some incident"
    and "timestamps_past w"
    and "executeAction (backend sv) iid actionId ps w = (Inr result, w')"
    and "success result"
  shows "\<exists>incident'.
           find (\<lambda>i. id' i = iid) (store w') = Some incident'
         \<and> status incident' = In_progress
         \<and> updated_at incident < updated_at incident'
         \<and> updated_at incident' = clock w
         \<and> timestamps_past w'"
proof -
  note call = executeAction_backend [OF assms(1), of sv actionId ps]
  have open_still: "status incident \<noteq> Resolved"
    using call assms(3,4) by (auto simp: resolved_refusal_def)
  have ran: "success (action_executor sv iid actionId ps)"
    using call assms(3,4) open_still by (auto split: if_splits)
  have w': "w' = (update_incident iid (begin_progress (clock w)) w)\<lparr>clock := clock w + 1\<rparr>"
    using call assms(3) open_still ran by simp
  have found: "find (\<lambda>i. id' i = iid) (store w')
               = Some (incident\<lparr>status := In_progress, updated_at := clock w\<rparr>)"
    using assms(1) open_still found_in_store [OF assms(1)]
    by (simp add: w' find_update_incident [OF id_begin_progress] begin_progress_def)
  have before: "updated_at incident < clock w"
    using assms(2) found_in_store [OF assms(1)]
    by (simp add: timestamps_past_def list_all_iff)
  have past: "timestamps_past w'"
    unfolding w' using assms(2)
    by (rule timestamps_past_update) (simp add: begin_progress_def)
  show ?thesis
    using found before past by simp
qed

theorem executeAction_success_witness:
  "find (\<lambda>i. id' i = unary_id 0) (store (advance 500 world_after_create))
     = Some (gateway_incident Open)
   \<and> timestamps_past (advance 500 world_after_create)
   \<and> executeAction (backend demo_services) (unary_id 0) (lit ''restart'') []
       (advance 500 world_after_create)
     = (Inr \<lparr>success = True, message = lit ''restarted''\<rparr>,
        \<lparr>store = [(gateway_incident In_progress)\<lparr>updated_at := 1501\<rparr>], next_id = 1,
         clock = 1502\<rparr>)
   \<and> (\<exists>incident'.
         find (\<lambda>i. id' i = unary_id 0)
           (store \<lparr>store = [(gateway_incident In_progress)\<lparr>updated_at := 1501\<rparr>], next_id = 1,
                   clock = 1502\<rparr>)
           = Some incident'
       \<and> status incident' = In_progress
       \<and> updated_at (gateway_incident Open) < updated_at incident'
       \<and> updated_at incident' = 1501)"
proof -
  have known: "find (\<lambda>i. id' i = unary_id 0) (store (advance 500 world_after_create))
               = Some (gateway_incident Open)"
    by (simp add: world_after_create_eq advance_def gateway_incident_def)
  have past: "timestamps_past (advance 500 world_after_create)"
    by (simp add: world_after_create_eq advance_def timestamps_past_def gateway_incident_def)
  have call: "executeAction (backend demo_services) (unary_id 0) (lit ''restart'') []
                (advance 500 world_after_create)
              = (Inr \<lparr>success = True, message = lit ''restarted''\<rparr>,
                 \<lparr>store = [(gateway_incident In_progress)\<lparr>updated_at := 1501\<rparr>],
                  next_id = 1, clock = 1502\<rparr>)"
    using executeAction_backend [OF known, of demo_services "lit ''restart''" "[]"]
    by (simp add: world_after_create_eq advance_def gateway_incident_def demo_services_def
        update_incident_def begin_progress_def)
  have now: "clock (advance 500 world_after_create) = 1501"
    by (simp add: world_after_create_eq advance_def)
  show ?thesis
    using executeAction_success_sets_in_progress [OF known past call] known past call
    by (simp add: now gateway_incident_def)
qed

section \<open>An action that fails (server modelled from the spec)\<close>

text \<open>
  C4. When the action of an \<open>executeAction\<close> call on a known incident fails (the Action
  Executor reports \<open>success\<close> false), the service call throws nothing and returns a result
  whose \<open>success\<close> is false: the executor's own result with its message, or, for a
  resolved incident, on which no action is run, the refusal. The store is as it was. What
  to make of the result is left to the caller: the details page, whose calls carry no
  parameters, sets no toast, neither the success nor the error one, and apart from
  \<open>isLoading\<close>, which is false again, is as it was.
\<close>

theorem executeAction_failure_is_a_result:
  assumes "find (\<lambda>i. id' i = iid) (store w) = Some incident"
    and "\<not> success (action_executor sv iid actionId ps)"
  shows "\<exists>result w'.
           executeAction (backend sv) iid actionId ps w = (Inr result, w')
         \<and> \<not> success result
         \<and> result = (if status incident = Resolved then resolved_refusal
                      else action_executor sv iid actionId ps)
         \<and> store w' = store w
         \<and> (ps = [] \<longrightarrow>
              IncidentDetails_executeAction (backend sv) iid actionId page w
                = (page\<lparr>d_isLoading := False\<rparr>, w'))"
proof -
  let ?result = "if status incident = Resolved then resolved_refusal
                 else action_executor sv iid actionId ps"
  let ?w' = "w\<lparr>clock := clock w + 1\<rparr>"
  have call: "executeAction (backend sv) iid actionId ps w = (Inr ?result, ?w')"
    using assms(2) by (simp add: executeAction_backend [OF assms(1)])
  have failed: "\<not> success ?result"
    using assms(2) by (simp add: resolved_refusal_def)
  have page: "IncidentDetails_executeAction (backend sv) iid actionId page w
              = (page\<lparr>d_isLoading := False\<rparr>, ?w')" if "ps = []"
    using call failed unfolding that by (rule failed_result_sets_no_toast)
  show ?thesis
    using call failed page by simp
qed

theorem executeAction_failure_witness:
  "find (\<lambda>i. id' i = unary_id 0) (store world_after_create) = Some (gateway_incident Open)
   \<and> \<not> success (action_executor failing_services (unary_id 0) (lit ''restart'') [])
   \<and> executeAction (backend failing_services) (unary_id 0) (lit ''restart'') []
       world_after_create
     = (Inr \<lparr>success = False, message = lit ''restart failed''\<rparr>,
        \<lparr>store = [gateway_incident Open], next_id = 1, clock = 1002\<rparr>)
   \<and> IncidentDetails_executeAction (backend failing_services) (unary_id 0) (lit ''restart'')
       loaded_page world_after_create
     = (loaded_page\<lparr>d_isLoading := False\<rparr>,
        \<lparr>store = [gateway_incident Open], next_id = 1, clock = 1002\<rparr>)"
proof -
  have known: "find (\<lambda>i. id' i = unary_id 0) (store world_after_create)
               = Some (gateway_incident Open)"
    by (simp add: world_after_create_eq gateway_incident_def)
  have fails: "\<not> success (action_executor failing_services (unary_id 0) (lit ''restart'') [])"
    by (simp add: failing_services_def)
  have r: "action_executor failing_services (unary_id 0) (lit ''restart'') []
           = \<lparr>success = False, message = lit ''restart failed''\<rparr>"
    by (simp add: failing_services_def)
  have st: "status (gateway_incident Open) \<noteq> Resolved"
    by (simp add: gateway_incident_def)
  have w: "world_after_create\<lparr>clock := clock world_after_create + 1\<rparr>
           = \<lparr>store = [gateway_incident Open], next_id = 1, clock = 1002\<rparr>"
    by (simp add: world_after_create_eq)
  obtain result w' where
    call: "executeAction (backend failing_services) (unary_id 0) (lit ''restart'') []
             world_after_create = (Inr result, w')"
    and res: "result = (if status (gateway_incident Open) = Resolved then resolved_refusal
                        else action_executor failing_services (unary_id 0) (lit ''restart'') [])"
    and page: "IncidentDetails_executeAction (backend failing_services) (unary_id 0)
                 (lit ''restart'') loaded_page world_after_create
               = (loaded_page\<lparr>d_isLoading := False\<rparr>, w')"
    using executeAction_failure_is_a_result [OF known fails, of loaded_page]
    by auto
  have w': "w' = \<lparr>store = [gateway_incident Open], next_id = 1, clock = 1002\<rparr>"
    using call executeAction_backend [OF known, of failing_services "lit ''restart''" "[]"]
      st fails w
    by simp
  show ?thesis
    using known fails call page res st r w' by simp
qed

section \<open>Creating an incident (server modelled from the spec)\<close>

lemma fresh_id:
  assumes "inj (mk_id sv)" and "store_inv sv w"
  shows "mk_id sv (next_id w) \<notin> set (map id' (store w))"
proof
  assume "mk_id sv (next_id w) \<in> set (map id' (store w))"
  then obtain i where i: "i \<in> set (store w)" and eq: "id' i = mk_id sv (next_id w)"
    by auto
  from assms(2) i have "id' i \<in> set (map (mk_id sv) [0..<next_id w])"
    by (simp add: store_inv_def list_all_iff)
  then obtain k where k: "k < next_id w" and "id' i = mk_id sv k"
    by auto
  with eq have "mk_id sv k = mk_id sv (next_id w)" by simp
  with assms(1) have "k = next_id w" by (simp add: inj_eq)
  with k show False by simp
qed

text \<open>
  C6. \<open>createIncident\<close> hands the fields it is given, which have no id, to the endpoint.
  Against the server modelled from the spec, on a store whose ids come from the counter
  under an injective rendering, the call returns a new incident whose id is the id of no
  incident stored before, whose status is \<open>open\<close>, whose \<open>created_at\<close> and \<open>updated_at\<close> both
  are the server's clock reading, and whose other fields are those of the request; the
  store gains this incident and keeps its ids unique.
\<close>

theorem create_returns_new_open_incident:
  assumes "inj (mk_id sv)" and "store_inv sv w"
  shows "\<exists>incident w'.
           createIncident (backend sv) request w = (Inr incident, w')
         \<and> post_incidents (backend sv) request w = (Response 200 (Some incident), w')
         \<and> id' incident \<notin> set (map id' (store w))
         \<and> status incident = Open
         \<and> created_at incident = clock w \<and> updated_at incident = created_at incident
         \<and> title incident = title request \<and> description incident = description request
         \<and> component incident = component request \<and> severity incident = severity request
         \<and> affected_service incident = affected_service request
         \<and> store w' = store w @ [incident]
         \<and> store_inv sv w'"
proof -
  let ?i = "\<lparr>title = title request, description = description request,
             component = component request, severity = severity request,
             affected_service = affected_service request, status = Open,
             created_at = clock w, updated_at = clock w, id' = mk_id sv (next_id w)\<rparr>"
  let ?w = "w\<lparr>store := store w @ [?i], next_id := next_id w + 1, clock := clock w + 1\<rparr>"
  have sent: "post_incidents (backend sv) request w = (Response 200 (Some ?i), ?w)"
    by (simp add: backend_def store_create_def respond_def served_def Let_def)
  have call: "createIncident (backend sv) request w = (Inr ?i, ?w)"
    by (simp add: createIncident_def sent checked_json_def ok_def)
  have fresh: "id' ?i \<notin> set (map id' (store w))"
    using fresh_id [OF assms] by simp
  have inv: "store_inv sv ?w"
    using assms(2) fresh by (auto simp: store_inv_def list_all_iff)
  show ?thesis
    using call sent fresh inv by simp
qed

lemma demo_inv: "store_inv demo_services (empty_world t)"
  by (simp add: store_inv_def empty_world_def)

theorem create_returns_new_open_incident_witness:
  "inj (mk_id demo_services)
   \<and> store_inv demo_services (empty_world 1000)
   \<and> fst (createIncident (backend demo_services) (new_incident_fields 990 991)
            (empty_world 1000))
       = Inr (gateway_incident Open)
   \<and> store_inv demo_services world_after_create"
proof -
  have i: "inj (mk_id demo_services)"
    using inj_unary_id by (simp add: demo_services_def)
  obtain incident w' where
    call: "createIncident (backend demo_services) (new_incident_fields 990 991) (empty_world 1000)
           = (Inr incident, w')"
    and inv: "store_inv demo_services w'"
    using create_returns_new_open_incident [OF i demo_inv, of "new_incident_fields 990 991" 1000]
    by blast
  have w': "world_after_create = w'"
    using call by (simp add: world_after_create_def)
  have "fst (createIncident (backend demo_services) (new_incident_fields 990 991)
               (empty_world 1000))
        = Inr (gateway_incident Open)"
    by (simp add: createIncident_def backend_def store_create_def respond_def served_def
        checked_json_def ok_def Let_def demo_services_def empty_world_def
        new_incident_fields_def gateway_incident_def)
  then show ?thesis
    using i demo_inv inv w' by simp
qed

section \<open>Closing an incident in Recent Activity\<close>

lemma map_id_mark:
  "map id' (map (\<lambda>i. if id' i = iid then i\<lparr>status := Resolved\<rparr> else i) xs) = map id' xs"
  by (induction xs) simp_all

lemma marked_resolved:
  "list_all (\<lambda>i. id' i = iid \<longrightarrow> status i = Resolved)
     (map (\<lambda>i. if id' i = iid then i\<lparr>status := Resolved\<rparr> else i) xs)"
  by (induction xs) simp_all

text \<open>
  An incident of the server's list is among the five shown when at most five incidents
  of the list, itself included, are as new or newer.
\<close>

lemma set_Array_sort: "set (Array_sort f xs) = set xs"
  using mset_Array_sort [of f xs] by (metis set_mset_mset)

lemma among_the_first:
  assumes "sorted_wrt (\<lambda>a b. created_at b \<le> created_at a) s"
    and "i \<in> set s"
    and "length (filter (\<lambda>j. created_at i \<le> created_at j) s) \<le> n"
  shows "i \<in> set (take n s)"
proof -
  let ?Q = "\<lambda>j. created_at i \<le> created_at j"
  from assms(2) obtain k where k: "k < length s" and sk: "s ! k = i"
    by (auto simp: in_set_conv_nth)
  have "k < n"
  proof (rule ccontr)
    assume "\<not> k < n"
    have all: "?Q j" if "j \<in> set (take (Suc k) s)" for j
    proof -
      from that obtain m where m: "m < Suc k" "m < length s" and j: "j = s ! m"
        by (auto simp: in_set_conv_nth)
      show ?thesis
      proof (cases "m = k")
        case True
        with j sk show ?thesis by simp
      next
        case False
        with m have "m < k" by simp
        then have "created_at (s ! k) \<le> created_at (s ! m)"
          using sorted_wrt_nth_less [OF assms(1) _ k, of m] by simp
        with j sk show ?thesis by simp
      qed
    qed
    have "filter ?Q s = filter ?Q (take (Suc k) s) @ filter ?Q (drop (Suc k) s)"
      by (metis append_take_drop_id filter_append)
    moreover have "filter ?Q (take (Suc k) s) = take (Suc k) s"
      using all by (simp add: filter_id_conv)
    ultimately have "Suc k \<le> length (filter ?Q s)"
      using k by simp
    with assms(3) \<open>\<not> k < n\<close> show False
      by simp
  qed
  with k sk show ?thesis
    by (auto simp: in_set_conv_nth)
qed

lemma shown_if_few_newer:
  assumes "i \<in> set data"
    and "length (filter (\<lambda>j. created_at i \<le> created_at j) data) \<le> 5"
  shows "i \<in> set (take 5 (Array_sort newest_first data))"
proof -
  let ?Q = "\<lambda>j. created_at i \<le> created_at j"
  have "mset (filter ?Q (Array_sort newest_first data)) = mset (filter ?Q data)"
    by (simp add: mset_Array_sort)
  then have "length (filter ?Q (Array_sort newest_first data)) = length (filter ?Q data)"
    by (metis size_mset)
  with assms show ?thesis
    by (intro among_the_first sorted_Array_sort) (simp_all add: set_Array_sort)
qed

text \<open>
  A handler reaches the server only through the endpoints it calls: a property of the
  server's state that these endpoints keep is kept by the handler.
\<close>

lemma snd_getIncidents: "snd (getIncidents net w) = snd (get_incidents net w)"
  by (simp add: getIncidents_def split: prod.splits)

lemma snd_analyzeIncident: "snd (analyzeIncident net iid w) = snd (post_analyze net iid w)"
  by (simp add: analyzeIncident_def split: prod.splits)

lemma snd_getHealthCheck: "snd (getHealthCheck net iid w) = snd (post_health_check net iid w)"
  by (simp add: getHealthCheck_def split: prod.splits)

lemma snd_createIncident:
  "snd (createIncident net request w) = snd (post_incidents net request w)"
  by (simp add: createIncident_def split: prod.splits)

lemma snd_closeIncident: "snd (closeIncident net iid w) = snd (post_close net iid w)"
  by (simp add: closeIncident_def split: prod.splits)

lemma snd_executeAction:
  "snd (executeAction net iid actionId ps w) = snd (post_execute_action net iid actionId ps w)"
  by (simp add: executeAction_def split: prod.splits)

lemma keep_RecentActivity_fetchIncidents:
  assumes "\<And>w. P w \<Longrightarrow> P (snd (get_incidents net w))" and "P w"
  shows "P (snd (RecentActivity_fetchIncidents net st w))"
proof -
  have "snd (RecentActivity_fetchIncidents net st w) = snd (getIncidents net w)"
    by (simp add: RecentActivity_fetchIncidents_def split: prod.splits sum.splits)
  with assms show ?thesis
    by (simp add: snd_getIncidents)
qed

lemma keep_SystemHealth_fetchMetrics:
  assumes "\<And>w. P w \<Longrightarrow> P (snd (get_incidents net w))" and "P w"
  shows "P (snd (SystemHealth_fetchMetrics net metrics w))"
proof -
  have "snd (SystemHealth_fetchMetrics net metrics w) = snd (getIncidents net w)"
    by (simp add: SystemHealth_fetchMetrics_def split: prod.splits sum.splits)
  with assms show ?thesis
    by (simp add: snd_getIncidents)
qed

lemma keep_fetchIncidentDetails:
  assumes "\<And>w. P w \<Longrightarrow> P (snd (get_incidents net w))"
    and "\<And>iid w. P w \<Longrightarrow> P (snd (post_analyze net iid w))"
    and "\<And>iid w. P w \<Longrightarrow> P (snd (post_health_check net iid w))"
    and "P w"
  shows "P (snd (fetchIncidentDetails net incidentId page w))"
proof -
  let ?w1 = "snd (getIncidents net w)"
  let ?w2 = "snd (analyzeIncident net incidentId ?w1)"
  let ?w3 = "snd (getHealthCheck net incidentId ?w2)"
  have "snd (fetchIncidentDetails net incidentId page w) \<in> {?w1, ?w2, ?w3}"
    by (auto simp: fetchIncidentDetails_def Let_def
        split: prod.splits sum.splits option.splits)
  moreover have "P ?w1"
    using assms(1,4) by (simp add: snd_getIncidents)
  moreover have "P ?w2"
    using assms(2) \<open>P ?w1\<close> by (simp add: snd_analyzeIncident)
  moreover have "P ?w3"
    using assms(3) \<open>P ?w2\<close> by (simp add: snd_getHealthCheck)
  ultimately show ?thesis
    by auto
qed

lemma keep_handleCreateIncident:
  assumes "\<And>request w. P w \<Longrightarrow> P (snd (post_incidents net request w))"
    and "\<And>iid w. P w \<Longrightarrow> P (snd (post_analyze net iid w))"
    and "P w"
  shows "P (snd (handleCreateIncident net t1 t2 w))"
proof -
  obtain r w1 where c: "createIncident net (new_incident_fields t1 t2) w = (r, w1)"
    by (cases "createIncident net (new_incident_fields t1 t2) w")
  have w1: "P w1"
    using assms(1) [OF assms(3), of "new_incident_fields t1 t2"] c
    by (simp add: snd_createIncident [symmetric])
  show ?thesis
  proof (cases r)
    case (Inl e)
    with c w1 show ?thesis
      by (simp add: handleCreateIncident_def)
  next
    case (Inr incident)
    with c have "snd (handleCreateIncident net t1 t2 w)
                 = snd (analyzeIncident net (id' incident) w1)"
      by (simp add: handleCreateIncident_def split: prod.splits sum.splits)
    with assms(2) [OF w1] show ?thesis
      by (simp add: snd_analyzeIncident)
  qed
qed

lemma keep_handleCloseIncident:
  assumes "\<And>iid w. P w \<Longrightarrow> P (snd (post_close net iid w))" and "P w"
  shows "P (snd (handleCloseIncident net incidentId st w))"
proof -
  have "snd (handleCloseIncident net incidentId st w) = snd (closeIncident net incidentId w)"
    by (simp add: handleCloseIncident_def Let_def split: prod.splits sum.splits)
  with assms show ?thesis
    by (simp add: snd_closeIncident)
qed

lemma keep_IncidentDetails_executeAction:
  assumes "\<And>iid actionId ps w. P w \<Longrightarrow> P (snd (post_execute_action net iid actionId ps w))"
    and "\<And>w. P w \<Longrightarrow> P (snd (get_incidents net w))"
    and "\<And>iid w. P w \<Longrightarrow> P (snd (post_health_check net iid w))"
    and "P w"
  shows "P (snd (IncidentDetails_executeAction net incidentId actionId page w))"
proof -
  let ?w1 = "snd (executeAction net incidentId actionId [] w)"
  let ?w2 = "snd (getIncidents net ?w1)"
  let ?w3 = "snd (getHealthCheck net incidentId ?w2)"
  have "snd (IncidentDetails_executeAction net incidentId actionId page w) \<in> {?w1, ?w2, ?w3}"
    by (auto simp: IncidentDetails_executeAction_def Let_def
        split: prod.splits sum.splits option.splits)
  moreover have "P ?w1"
    using assms(1,4) by (simp add: snd_executeAction)
  moreover have "P ?w2"
    using assms(2) \<open>P ?w1\<close> by (simp add: snd_getIncidents)
  moreover have "P ?w3"
    using assms(3) \<open>P ?w2\<close> by (simp add: snd_getHealthCheck)
  ultimately show ?thesis
    by auto
qed

text \<open>
  The requests the recording network logs: list, analyze, health check and create add no
  close and no execute-action request.
\<close>

lemma recording_spares:
  assumes "spares incidentId sent"
  shows "spares incidentId (snd (get_incidents (recording rs) sent))"
    and "spares incidentId (snd (post_analyze (recording rs) iid sent))"
    and "spares incidentId (snd (post_health_check (recording rs) iid sent))"
    and "spares incidentId (snd (post_incidents (recording rs) request sent))"
  using assms by (simp_all add: recording_def spares_def)

text \<open>
  C7, as stated, fails: the list shown is cut to the five newest incidents at every
  poll. Incident \<open>b\<close>, the only one when the list is first fetched, is closed; at the next
  poll the server lists six incidents, \<open>b\<close> among them and resolved, but the five others
  are newer, and \<open>b\<close> is no longer in the list shown.
\<close>

theorem closed_incident_leaves_the_list:
  "shown (fst (RecentActivity_fetchIncidents
                 (answering (no_replies\<lparr>list_reply :=
                    Response 200 (Some [sample (lit ''b'') High Open 10])\<rparr>))
                 \<lparr>shown = [], isClosing = Map.empty, refreshKey = 0\<rparr> ()))
     = shown showing_b
   \<and> fst (handleCloseIncident (answering closing_replies) (lit ''b'') showing_b ())
     = (\<lparr>shown = [sample (lit ''b'') High Resolved 10],
         isClosing = [lit ''b'' \<mapsto> False], refreshKey = 1\<rparr>, None)
   \<and> sample (lit ''b'') High Resolved 10 \<in> set six_incidents
   \<and> map id'
       (shown (fst (RecentActivity_fetchIncidents (answering closing_replies)
                      \<lparr>shown = [sample (lit ''b'') High Resolved 10],
                        isClosing = [lit ''b'' \<mapsto> False], refreshKey = 1\<rparr> ())))
     = map lit [''c'', ''e'', ''f'', ''a'', ''d'']"
proof -
  have first: "shown (fst (RecentActivity_fetchIncidents
                 (answering (no_replies\<lparr>list_reply :=
                    Response 200 (Some [sample (lit ''b'') High Open 10])\<rparr>))
                 \<lparr>shown = [], isClosing = Map.empty, refreshKey = 0\<rparr> ()))
     = shown showing_b"
    by (simp add: RecentActivity_fetchIncidents_def getIncidents_def answering_def
        no_replies_def checked_json_def ok_def Array_sort_def showing_b_def)
  have close: "fst (handleCloseIncident (answering closing_replies) (lit ''b'') showing_b ())
     = (\<lparr>shown = [sample (lit ''b'') High Resolved 10],
         isClosing = [lit ''b'' \<mapsto> False], refreshKey = 1\<rparr>, None)"
    by (simp add: handleCloseIncident_def closeIncident_def answering_def closing_replies_def
        no_replies_def checked_json_def ok_def showing_b_def sample_def Let_def)
  have listed: "sample (lit ''b'') High Resolved 10 \<in> set six_incidents"
    by (simp add: six_incidents_def)
  have poll: "map id'
       (shown (fst (RecentActivity_fetchIncidents (answering closing_replies)
                      \<lparr>shown = [sample (lit ''b'') High Resolved 10],
                        isClosing = [lit ''b'' \<mapsto> False], refreshKey = 1\<rparr> ())))
     = map lit [''c'', ''e'', ''f'', ''a'', ''d'']"
    by (simp add: RecentActivity_fetchIncidents_def getIncidents_def answering_def
        closing_replies_def no_replies_def checked_json_def ok_def Array_sort_def
        newest_first_def six_incidents_def sample_def)
  show ?thesis
    using first close listed poll by (simp only: simp_thms)
qed

text \<open>
  C7, amended. When the close call of \<open>handleCloseIncident\<close> succeeds, the list shown
  right afterwards is the list shown before with every incident of that id set to
  \<open>resolved\<close>: the same incidents in the same order, those of that id resolved. After a
  poll that returns the server's list, every incident shown is one of that list, so it is
  shown with the status the server reports; and an incident of that list is shown when
  at most five incidents of the list, itself included, are as new or newer. For a
  resolved incident the Close button is not rendered and the Execute button is disabled.
  The other operations of the UI, which are opening the details page, the polls of Recent
  Activity and of System Health, and Quick Actions, reach the server only through the
  list, analyze, health-check and create endpoints: they keep every property of the
  server's state that these four endpoints keep.
\<close>

theorem close_marks_resolved:
  assumes "closeIncident net incidentId w = (Inr closedIncident, w')"
    and "getIncidents net w1 = (Inr data, w2)"
    and "\<And>w. P w \<Longrightarrow> P (snd (get_incidents net w))"
    and "\<And>iid w. P w \<Longrightarrow> P (snd (post_analyze net iid w))"
    and "\<And>iid w. P w \<Longrightarrow> P (snd (post_health_check net iid w))"
    and "\<And>request w. P w \<Longrightarrow> P (snd (post_incidents net request w))"
    and "P w0"
  shows "shown (fst (fst (handleCloseIncident net incidentId st w)))
           = map (\<lambda>i. if id' i = incidentId then i\<lparr>status := Resolved\<rparr> else i) (shown st)
       \<and> map id' (shown (fst (fst (handleCloseIncident net incidentId st w))))
           = map id' (shown st)
       \<and> list_all (\<lambda>i. id' i = incidentId \<longrightarrow> status i = Resolved)
           (shown (fst (fst (handleCloseIncident net incidentId st w))))
       \<and> set (shown (fst (RecentActivity_fetchIncidents net st1 w1))) \<subseteq> set data
       \<and> (\<forall>i \<in> set data.
             length (filter (\<lambda>j. created_at i \<le> created_at j) data) \<le> 5
             \<longrightarrow> i \<in> set (shown (fst (RecentActivity_fetchIncidents net st1 w1))))
       \<and> (status incident = Resolved \<longrightarrow>
            \<not> close_button_rendered incident \<and> execute_disabled loading incident)
       \<and> P (snd (fetchIncidentDetails net iid page w0))
       \<and> P (snd (RecentActivity_fetchIncidents net st w0))
       \<and> P (snd (SystemHealth_fetchMetrics net metrics w0))
       \<and> P (snd (handleCreateIncident net t1 t2 w0))"
proof -
  have sh: "shown (fst (fst (handleCloseIncident net incidentId st w)))
           = map (\<lambda>i. if id' i = incidentId then i\<lparr>status := Resolved\<rparr> else i) (shown st)"
    using assms(1) by (simp add: handleCloseIncident_def Let_def)
  have polled: "shown (fst (RecentActivity_fetchIncidents net st1 w1))
                = take 5 (Array_sort newest_first data)"
    using assms(2) by (simp add: RecentActivity_fetchIncidents_def)
  have sub: "set (shown (fst (RecentActivity_fetchIncidents net st1 w1))) \<subseteq> set data"
    unfolding polled using set_take_subset [of 5 "Array_sort newest_first data"]
    by (simp add: set_Array_sort)
  have present: "\<forall>i \<in> set data.
             length (filter (\<lambda>j. created_at i \<le> created_at j) data) \<le> 5
             \<longrightarrow> i \<in> set (shown (fst (RecentActivity_fetchIncidents net st1 w1)))"
    unfolding polled by (simp add: shown_if_few_newer)
  have buttons: "status incident = Resolved \<longrightarrow>
            \<not> close_button_rendered incident \<and> execute_disabled loading incident"
    by (simp add: close_button_rendered_def execute_disabled_def)
  have k1: "P (snd (fetchIncidentDetails net iid page w0))"
    using assms(3,4,5,7) by (rule keep_fetchIncidentDetails)
  have k2: "P (snd (RecentActivity_fetchIncidents net st w0))"
    using assms(3,7) by (rule keep_RecentActivity_fetchIncidents)
  have k3: "P (snd (SystemHealth_fetchMetrics net metrics w0))"
    using assms(3,7) by (rule keep_SystemHealth_fetchMetrics)
  have k4: "P (snd (handleCreateIncident net t1 t2 w0))"
    using assms(6,4,7) by (rule keep_handleCreateIncident)
  show ?thesis
    using sub present buttons k1 k2 k3 k4
    by (simp only: sh map_id_mark marked_resolved simp_thms)
qed

theorem close_marks_resolved_witness:
  "closeIncident (recording closing_replies) (lit ''b'') []
     = (Inr (sample (lit ''b'') High Resolved 10), [Post_close (lit ''b'')])
   \<and> getIncidents (recording closing_replies) [] = (Inr six_incidents, [Get_incidents])
   \<and> spares (lit ''b'') []
   \<and> shown (fst (fst (handleCloseIncident (recording closing_replies) (lit ''b'')
                        showing_b [])))
     = [sample (lit ''b'') High Resolved 10]
   \<and> sample (lit ''a'') Low Open 30
       \<in> set (shown (fst (RecentActivity_fetchIncidents (recording closing_replies)
                            showing_b [])))
   \<and> \<not> close_button_rendered (sample (lit ''b'') High Resolved 10)
   \<and> execute_disabled False (sample (lit ''b'') High Resolved 10)
   \<and> spares (lit ''b'')
       (snd (fetchIncidentDetails (recording closing_replies) (lit ''b'') blank_page []))"
proof -
  have closed: "closeIncident (recording closing_replies) (lit ''b'') []
     = (Inr (sample (lit ''b'') High Resolved 10), [Post_close (lit ''b'')])"
    by (simp add: closeIncident_def recording_def closing_replies_def no_replies_def
        checked_json_def ok_def)
  have polled: "getIncidents (recording closing_replies) [] = (Inr six_incidents, [Get_incidents])"
    by (simp add: getIncidents_def recording_def closing_replies_def no_replies_def
        checked_json_def ok_def)
  have none: "spares (lit ''b'') []"
    by (simp add: spares_def)
  have a: "sample (lit ''a'') Low Open 30 \<in> set six_incidents"
    by (simp add: six_incidents_def)
  have few: "length (filter (\<lambda>j. created_at (sample (lit ''a'') Low Open 30) \<le> created_at j)
                      six_incidents) \<le> 5"
    by (simp add: six_incidents_def sample_def)
  have st: "status (sample (lit ''b'') High Resolved 10) = Resolved"
    by (simp add: sample_def)
  have mark: "map (\<lambda>i. if id' i = lit ''b'' then i\<lparr>status := Resolved\<rparr> else i) (shown showing_b)
              = [sample (lit ''b'') High Resolved 10]"
    by (simp add: showing_b_def sample_def)
  show ?thesis
    using close_marks_resolved
      [of "recording closing_replies" "lit ''b''" "[]" "sample (lit ''b'') High Resolved 10"
          "[Post_close (lit ''b'')]" "[]" six_incidents "[Get_incidents]"
          "spares (lit ''b'')" "[]" showing_b showing_b
          "sample (lit ''b'') High Resolved 10" False "lit ''b''" blank_page,
       OF closed polled recording_spares(1) recording_spares(2) recording_spares(3)
          recording_spares(4) none]
      closed polled none a few st
    by (simp add: mark)
qed

text \<open>
  Opening the details page of a resolved incident sends its analyze and health-check
  requests all the same: of the six incidents listed, \<open>b\<close> is resolved.
\<close>

lemma details_page_analyses_resolved:
  "fetchIncidentDetails (recording closing_replies) (lit ''b'') blank_page []
   = (\<lparr>d_incident = Some (sample (lit ''b'') High Resolved 10),
       d_analysis = lit ''disk full'', d_actions = [], d_isLoading = False,
       d_healthStatus = Some Healthy, d_toast = None\<rparr>,
      [Get_incidents, Post_analyze (lit ''b''), Post_health_check (lit ''b'')])"
proof -
  have found: "find (\<lambda>i. id' i = lit ''b'') six_incidents
               = Some (sample (lit ''b'') High Resolved 10)"
    by (simp add: six_incidents_def sample_def lit_def)
  show ?thesis
    by (simp add: fetchIncidentDetails_def getIncidents_def analyzeIncident_def
        getHealthCheck_def recording_def closing_replies_def no_replies_def checked_json_def
        ok_def found blank_page_def Let_def)
qed

text \<open>
  On the server modelled from the spec, where resolving is terminal, every handler of the
  UI leaves a resolved incident resolved.
\<close>

lemma resolved_kept_by_handlers:
  assumes "resolved_in_store iid w"
  shows "resolved_in_store iid (snd (fetchIncidentDetails (backend sv) jid page w))"
    and "resolved_in_store iid (snd (RecentActivity_fetchIncidents (backend sv) st w))"
    and "resolved_in_store iid (snd (SystemHealth_fetchMetrics (backend sv) metrics w))"
    and "resolved_in_store iid (snd (handleCreateIncident (backend sv) t1 t2 w))"
    and "resolved_in_store iid (snd (handleCloseIncident (backend sv) jid st w))"
    and "resolved_in_store iid (snd (IncidentDetails_executeAction (backend sv) jid actionId page w))"
proof -
  show "resolved_in_store iid (snd (fetchIncidentDetails (backend sv) jid page w))"
    using assms
    by (intro keep_fetchIncidentDetails [where P = "resolved_in_store iid"])
       (simp_all add: resolved_kept_by_backend)
  show "resolved_in_store iid (snd (RecentActivity_fetchIncidents (backend sv) st w))"
    using assms
    by (intro keep_RecentActivity_fetchIncidents [where P = "resolved_in_store iid"])
       (simp_all add: resolved_kept_by_backend)
  show "resolved_in_store iid (snd (SystemHealth_fetchMetrics (backend sv) metrics w))"
    using assms
    by (intro keep_SystemHealth_fetchMetrics [where P = "resolved_in_store iid"])
       (simp_all add: resolved_kept_by_backend)
  show "resolved_in_store iid (snd (handleCreateIncident (backend sv) t1 t2 w))"
    using assms
    by (intro keep_handleCreateIncident [where P = "resolved_in_store iid"])
       (simp_all add: resolved_kept_by_backend)
  show "resolved_in_store iid (snd (handleCloseIncident (backend sv) jid st w))"
    using assms
    by (intro keep_handleCloseIncident [where P = "resolved_in_store iid"])
       (simp_all add: resolved_kept_by_backend)
  show "resolved_in_store iid
          (snd (IncidentDetails_executeAction (backend sv) jid actionId page w))"
    using assms
    by (intro keep_IncidentDetails_executeAction [where P = "resolved_in_store iid"])
       (simp_all add: resolved_kept_by_backend)
qed

text \<open>
  The three steps on the example world: the incident is closed at the clock's reading
  1001; opening its details page and refreshing the list leave it resolved.
\<close>

lemma after_close_eq:
  "after_close
   = ((\<lparr>shown = [gateway_incident Resolved], isClosing = [unary_id 0 \<mapsto> False],
        refreshKey = 1\<rparr>, None),
      \<lparr>store = [(gateway_incident Resolved)\<lparr>updated_at := 1001\<rparr>], next_id = 1,
       clock = 1002\<rparr>)"
  by (simp add: after_close_def world_after_create_eq gateway_incident_def
      handleCloseIncident_def closeIncident_def backend_def store_close_def respond_def
      served_def checked_json_def ok_def update_incident_def Let_def)

lemma after_details_eq:
  "after_details
   = (\<lparr>d_incident = Some ((gateway_incident Resolved)\<lparr>updated_at := 1001\<rparr>),
       d_analysis = lit ''High CPU on the gateway'', d_actions = [], d_isLoading = False,
       d_healthStatus = Some Degraded, d_toast = None\<rparr>,
      \<lparr>store = [(gateway_incident Resolved)\<lparr>updated_at := 1001\<rparr>], next_id = 1,
       clock = 1005\<rparr>)"
  by (simp add: after_details_def after_close_eq gateway_incident_def blank_page_def
      fetchIncidentDetails_def getIncidents_def analyzeIncident_def getHealthCheck_def
      backend_def store_list_def store_analyze_def store_healthCheck_def respond_def
      served_def checked_json_def ok_def update_incident_def begin_analysis_def
      demo_services_def Let_def)

lemma after_refresh_eq:
  "shown (fst after_refresh) = [(gateway_incident Resolved)\<lparr>updated_at := 1001\<rparr>]"
  by (simp add: after_refresh_def after_details_eq after_close_eq
      RecentActivity_fetchIncidents_def getIncidents_def backend_def store_list_def
      respond_def served_def checked_json_def ok_def Array_sort_def)

end
